theory Spec2Isabelle
  imports Complex_Main
begin

section \<open>Python values and exceptions\<close>

text \<open>
  The values \<^verbatim>\<open>json.loads\<close> produces. A Python float is a finite real number, one of the
  two infinities, or NaN (\<^verbatim>\<open>json.loads\<close> reads \<^verbatim>\<open>1e999\<close> and \<^verbatim>\<open>Infinity\<close> as the float
  infinity and \<^verbatim>\<open>NaN\<close> as NaN). A dict is the list of its items.
\<close>

datatype pyfloat = Finite real | PosInf | NegInf | NaN

datatype json =
    JNull
  | JBool bool
  | JInt int
  | JFloat pyfloat
  | JStr string
  | JArr "json list"
  | JObj "(string \<times> json) list"

text \<open>
  Exceptions. Every constructor but \<open>CancelledError\<close> is a subclass of \<^verbatim>\<open>Exception\<close>;
  \<^verbatim>\<open>asyncio.CancelledError\<close> derives from \<^verbatim>\<open>BaseException\<close> only, so an
  \<^verbatim>\<open>except Exception\<close> clause does not catch it.
\<close>

datatype pyexc =
    ValueError
  | TypeError
  | OverflowError
  | AttributeError
  | JSONDecodeError
  | ConnectionClosed
  | TimeoutError
  | OtherException string
  | CancelledError

fun is_Exception :: "pyexc \<Rightarrow> bool" where
  "is_Exception CancelledError = False"
| "is_Exception _ = True"

section \<open>message\_handlers.py: \<^verbatim>\<open>Message._safe_int\<close>\<close>

subsection \<open>The builtin \<^verbatim>\<open>int\<close>\<close>

text \<open>
  \<^verbatim>\<open>int(s)\<close> on a string: surrounding whitespace is stripped, one sign is allowed, then
  decimal digits follow, single underscores allowed between digits. Anything else raises
  \<^verbatim>\<open>ValueError\<close>. Strings are over 8-bit characters here. The whitespace \<^verbatim>\<open>int\<close> strips
  is tab, line feed, vertical tab, form feed, carriage return and space, and of the
  characters above 127 the next-line and the no-break space; the separators 28 to 31 are
  not stripped, although \<^verbatim>\<open>str.isspace\<close> holds of them.
\<close>

definition is_space :: "char \<Rightarrow> bool" where
  "is_space c = (of_char c \<in> {9::nat, 10, 11, 12, 13, 32, 133, 160})"

definition is_digit :: "char \<Rightarrow> bool" where
  "is_digit c = (48 \<le> (of_char c :: nat) \<and> (of_char c :: nat) \<le> 57)"

definition digit_val :: "char \<Rightarrow> int" where
  "digit_val c = int (of_char c) - 48"

fun parse_digits :: "int \<Rightarrow> bool \<Rightarrow> string \<Rightarrow> int option" where
  "parse_digits acc prev [] = (if prev then Some acc else None)"
| "parse_digits acc prev (c # cs) =
     (if is_digit c then parse_digits (acc * 10 + digit_val c) True cs
      else if c = CHR ''_'' \<and> prev then parse_digits acc False cs
      else None)"

definition strip :: "string \<Rightarrow> string" where
  "strip s = rev (dropWhile is_space (rev (dropWhile is_space s)))"

text \<open>
  CPython 3.11 and later refuse, with \<^verbatim>\<open>ValueError\<close>, a string of more than 4300 digits
  (the default of \<^verbatim>\<open>sys.set_int_max_str_digits\<close>); sign, underscores and the stripped
  whitespace are not counted.
\<close>

definition parse_body :: "string \<Rightarrow> int option" where
  "parse_body body =
     (if 4300 < length (filter is_digit body) then None else parse_digits 0 False body)"

definition int_of_str :: "string \<Rightarrow> pyexc + int" where
  "int_of_str s =
     (case strip s of
        [] \<Rightarrow> Inl ValueError
      | c # cs \<Rightarrow>
          (if c = CHR ''-'' then
             (case parse_body cs of None \<Rightarrow> Inl ValueError | Some n \<Rightarrow> Inr (- n))
           else if c = CHR ''+'' then
             (case parse_body cs of None \<Rightarrow> Inl ValueError | Some n \<Rightarrow> Inr n)
           else
             (case parse_body (c # cs) of None \<Rightarrow> Inl ValueError | Some n \<Rightarrow> Inr n)))"

text \<open>\<^verbatim>\<open>int(x)\<close> on a float truncates towards zero; it raises on the infinities and on NaN.\<close>

definition trunc :: "real \<Rightarrow> int" where
  "trunc x = (if 0 \<le> x then \<lfloor>x\<rfloor> else \<lceil>x\<rceil>)"

fun int_of_float :: "pyfloat \<Rightarrow> pyexc + int" where
  "int_of_float (Finite x) = Inr (trunc x)"
| "int_of_float PosInf = Inl OverflowError"
| "int_of_float NegInf = Inl OverflowError"
| "int_of_float NaN = Inl ValueError"

fun py_int :: "json \<Rightarrow> pyexc + int" where
  "py_int JNull = Inl TypeError"
| "py_int (JBool b) = Inr (if b then 1 else 0)"
| "py_int (JInt n) = Inr n"
| "py_int (JFloat f) = int_of_float f"
| "py_int (JStr s) = int_of_str s"
| "py_int (JArr xs) = Inl TypeError"
| "py_int (JObj kvs) = Inl TypeError"

subsection \<open>\<^verbatim>\<open>str.lower\<close> and the conversion itself\<close>

definition lower_char :: "char \<Rightarrow> char" where
  "lower_char c =
     (if 65 \<le> (of_char c :: nat) \<and> (of_char c :: nat) \<le> 90
      then char_of ((of_char c :: nat) + 32) else c)"

definition lower :: "string \<Rightarrow> string" where
  "lower s = map lower_char s"

text \<open>
  \<^verbatim>\<open>
  def _safe_int(self, value):
      try:
          if value is None:
              return None
          if isinstance(value, str):
              value_lower = value.lower()
              if value_lower in ['none', 'null', 'undefined']:
                  return None
              return int(value)
          return int(value) if value is not None else None
      except (ValueError, TypeError):
          return None
  \<close>
  The argument is \<open>data.get(key)\<close>: \<open>None\<close> stands for an absent key, \<open>Some JNull\<close> for a
  JSON null; Python sees \<^verbatim>\<open>None\<close> in both cases. The handler names two exception classes;
  any other exception leaves the function.
\<close>

definition catch_value_type :: "pyexc + int \<Rightarrow> pyexc + int option" where
  "catch_value_type r =
     (case r of
        Inr n \<Rightarrow> Inr (Some n)
      | Inl ValueError \<Rightarrow> Inr None
      | Inl TypeError \<Rightarrow> Inr None
      | Inl e \<Rightarrow> Inl e)"

fun safe_int :: "json option \<Rightarrow> pyexc + int option" where
  "safe_int None = Inr None"
| "safe_int (Some JNull) = Inr None"
| "safe_int (Some (JStr s)) =
     (if lower s \<in> set [''none'', ''null'', ''undefined''] then Inr None
      else catch_value_type (int_of_str s))"
| "safe_int (Some v) = catch_value_type (py_int v)"

text \<open>
  app.py, \<^verbatim>\<open>Message._safe_int\<close>: the same conversion under a bare \<^verbatim>\<open>except:\<close>.
  \<^verbatim>\<open>
  def _safe_int(self, value):
      try:
          return int(value) if value is not None else None
      except:
          return None
  \<close>
\<close>

fun app_safe_int :: "json option \<Rightarrow> int option" where
  "app_safe_int None = None"
| "app_safe_int (Some JNull) = None"
| "app_safe_int (Some v) = (case py_int v of Inr n \<Rightarrow> Some n | Inl e \<Rightarrow> None)"

subsection \<open>\<^verbatim>\<open>Message.__init__\<close>\<close>

text \<open>
  \<open>dict_get\<close> is \<^verbatim>\<open>d.get(key)\<close> on a dict given by its items. On a value that is not a
  dict the attribute lookup \<^verbatim>\<open>.get\<close> raises \<^verbatim>\<open>AttributeError\<close>.
\<close>

definition dict_get :: "(string \<times> json) list \<Rightarrow> string \<Rightarrow> json option" where
  "dict_get kvs k = map_of kvs k"

definition then_exc :: "pyexc + 'a \<Rightarrow> ('a \<Rightarrow> pyexc + 'b) \<Rightarrow> pyexc + 'b" where
  "then_exc r f = (case r of Inl e \<Rightarrow> Inl e | Inr x \<Rightarrow> f x)"

record message =
  is_group :: bool
  msg_id :: "int option"
  msg_type :: "int option"
  content :: json
  send_id :: "int option"
  recv_id :: "int option"
  group_id :: "int option"
  send_time :: "json option"
  sendNickName :: "json option"
  quote_message :: "json option"
  recalled_message_id :: "int option"

definition RECALL :: int where
  "RECALL = 10"

text \<open>
  The fields are converted in the order of the assignments in \<^verbatim>\<open>__init__\<close>; the first
  conversion that raises ends the construction. \<^verbatim>\<open>data.get('type', 0)\<close> and
  \<^verbatim>\<open>data.get('content', '')\<close> have defaults.
\<close>

definition message_of_dict :: "(string \<times> json) list \<Rightarrow> bool \<Rightarrow> pyexc + message" where
  "message_of_dict d g =
     then_exc (safe_int (dict_get d ''id'')) (\<lambda>i.
     then_exc (safe_int (Some (case dict_get d ''type'' of None \<Rightarrow> JInt 0 | Some v \<Rightarrow> v))) (\<lambda>t.
     let c = (case dict_get d ''content'' of None \<Rightarrow> JStr [] | Some v \<Rightarrow> v) in
     then_exc (safe_int (dict_get d ''sendId'')) (\<lambda>s.
     then_exc (safe_int (dict_get d ''recvId'')) (\<lambda>r.
     then_exc (safe_int (dict_get d ''groupId'')) (\<lambda>gid.
     then_exc (if t = Some RECALL then safe_int (Some c) else Inr None) (\<lambda>rc.
     Inr \<lparr> is_group = g, msg_id = i, msg_type = t, content = c, send_id = s, recv_id = r,
           group_id = gid, send_time = dict_get d ''sendTime'',
           sendNickName = dict_get d ''sendNickName'',
           quote_message = dict_get d ''quoteMessage'',
           recalled_message_id = rc \<rparr>))))))"

fun message_init :: "json \<Rightarrow> bool \<Rightarrow> pyexc + message" where
  "message_init (JObj d) g = message_of_dict d g"
| "message_init _ g = Inl AttributeError"

section \<open>bot\_core.py: dispatch and the receive loop of \<^verbatim>\<open>EnhancedBoxIM\<close>\<close>

text \<open>
  What the supervisor does is observed through a trace: the handler calls, the log lines
  that matter, the connection attempts, the re-logins and the sleeps, in order.
\<close>

datatype event =
    HandlerRun nat message
  | HandlerErrorLogged nat pyexc
  | DispatchErrorLogged pyexc
  | DecodeErrorLogged string
  | FrameErrorLogged pyexc
  | ReceiveErrorLogged pyexc
  | SystemMessageLogged json
  | HeartbeatEcho
  | ForceOfflineLogged
  | ConnectionClosedLogged
  | Connecting nat
  | WsExceptionLogged pyexc
  | Relogin
  | Sleep int
  | LoopExit

text \<open>
  The part of the object the supervisor works on. The registered handlers are callbacks of
  other components: they work on a state of their own, \<open>handlers_state\<close>, and either
  return or raise.
\<close>

record 'h bot =
  ws_running :: bool
  ws_connected_flag :: bool
  ws_reconnect_count :: nat
  handlers_state :: 'h
  trace :: "event list"

type_synonym 'h handler = "message \<Rightarrow> 'h \<Rightarrow> pyexc option \<times> 'h"

record 'h registry =
  private_handlers :: "'h handler list"
  group_handlers :: "'h handler list"

definition emit :: "event \<Rightarrow> 'h bot \<Rightarrow> 'h bot" where
  "emit e s = s\<lparr>trace := trace s @ [e]\<rparr>"

text \<open>
  \<^verbatim>\<open>
  for handler in handlers:
      try:
          await handler(message)
      except Exception as e:
          logger.error(...)
  \<close>
  The first argument counts the handlers already passed, so that the trace names each
  handler by its place in the registration order.
\<close>

fun dispatch_from :: "nat \<Rightarrow> 'h handler list \<Rightarrow> message \<Rightarrow> 'h bot \<Rightarrow> 'h bot \<times> pyexc option" where
  "dispatch_from i [] m s = (s, None)"
| "dispatch_from i (h # hs) m s =
     (case h m (handlers_state s) of
        (None, st) \<Rightarrow>
          dispatch_from (Suc i) hs m (emit (HandlerRun i m) (s\<lparr>handlers_state := st\<rparr>))
      | (Some e, st) \<Rightarrow>
          (if is_Exception e
           then dispatch_from (Suc i) hs m
                  (emit (HandlerErrorLogged i e) (emit (HandlerRun i m) (s\<lparr>handlers_state := st\<rparr>)))
           else (emit (HandlerRun i m) (s\<lparr>handlers_state := st\<rparr>), Some e)))"

definition dispatch_message :: "'h handler list \<Rightarrow> message \<Rightarrow> 'h bot \<Rightarrow> 'h bot \<times> pyexc option" where
  "dispatch_message hs m s = dispatch_from 0 hs m s"

text \<open>\<^verbatim>\<open>cmd == WSCommand.X\<close>: Python compares an int, a bool or a float with the enum's number.\<close>

fun py_eq_int :: "json option \<Rightarrow> int \<Rightarrow> bool" where
  "py_eq_int (Some (JInt n)) k = (n = k)"
| "py_eq_int (Some (JBool b)) k = ((if b then 1 else 0) = k)"
| "py_eq_int (Some (JFloat (Finite x))) k = (x = of_int k)"
| "py_eq_int _ k = False"

definition AUTH :: int where "AUTH = 0"
definition HEARTBEAT :: int where "HEARTBEAT = 1"
definition FORCE_OFFLINE :: int where "FORCE_OFFLINE = 2"
definition PRIVATE_MESSAGE :: int where "PRIVATE_MESSAGE = 3"
definition GROUP_MESSAGE :: int where "GROUP_MESSAGE = 4"
definition SYSTEM_MESSAGE :: int where "SYSTEM_MESSAGE = 5"

fun handle_ws_message :: "'h registry \<Rightarrow> json \<Rightarrow> 'h bot \<Rightarrow> 'h bot \<times> pyexc option" where
  "handle_ws_message reg (JObj d) s =
     (let cmd = dict_get d ''cmd'';
          msg_data = (case dict_get d ''data'' of None \<Rightarrow> JObj [] | Some v \<Rightarrow> v)
      in if py_eq_int cmd PRIVATE_MESSAGE then
           (case message_init msg_data False of
              Inl e \<Rightarrow> (s, Some e)
            | Inr m \<Rightarrow> dispatch_message (private_handlers reg) m s)
         else if py_eq_int cmd GROUP_MESSAGE then
           (case message_init msg_data True of
              Inl e \<Rightarrow> (s, Some e)
            | Inr m \<Rightarrow> dispatch_message (group_handlers reg) m s)
         else if py_eq_int cmd SYSTEM_MESSAGE then (emit (SystemMessageLogged msg_data) s, None)
         else if py_eq_int cmd HEARTBEAT then (emit HeartbeatEcho s, None)
         else if py_eq_int cmd FORCE_OFFLINE then
           ((emit ForceOfflineLogged s)\<lparr>ws_running := False, ws_connected_flag := False\<rparr>, None)
         else (s, None))"
| "handle_ws_message reg _ s = (s, Some AttributeError)"

text \<open>
  A received frame as \<^verbatim>\<open>json.loads\<close> sees it: text that is not JSON, on which it raises
  \<^verbatim>\<open>JSONDecodeError\<close>, or the value it returns.
\<close>

datatype wire = NotJson string | Json json

text \<open>
  \<^verbatim>\<open>
  async for message in self.ws_connection:
      self.last_message_time = time.time()
      data = json.loads(message)
      await self._handle_ws_message(data)
  \<close>
  The connection delivers finitely many frames and then ends: the iteration stops
  (\<open>None\<close>) or raises. Nothing in the loop body is inside a \<^verbatim>\<open>try\<close>.
\<close>

fun receive_frames :: "'h registry \<Rightarrow> wire list \<Rightarrow> pyexc option \<Rightarrow> 'h bot \<Rightarrow> 'h bot \<times> pyexc option" where
  "receive_frames reg [] fin s = (s, fin)"
| "receive_frames reg (NotJson t # fs) fin s = (s, Some JSONDecodeError)"
| "receive_frames reg (Json d # fs) fin s =
     (case handle_ws_message reg d s of
        (s', Some e) \<Rightarrow> (s', Some e)
      | (s', None) \<Rightarrow> receive_frames reg fs fin s')"

definition ws_receive :: "'h registry \<Rightarrow> wire list \<Rightarrow> pyexc option \<Rightarrow> 'h bot \<Rightarrow> 'h bot \<times> pyexc option" where
  "ws_receive reg fs fin s =
     (case receive_frames reg fs fin s of
        (s', Some ConnectionClosed) \<Rightarrow>
          ((emit ConnectionClosedLogged s')\<lparr>ws_connected_flag := False\<rparr>, None)
      | r \<Rightarrow> r)"

section \<open>app.py: dispatch and the receive loop of \<^verbatim>\<open>BoxIM\<close>\<close>

text \<open>
  The message class of app.py converts with \<open>app_safe_int\<close>, which cannot raise, and has no
  quoted message and no recalled id: the two fields stay empty.
\<close>

definition app_message_of_dict :: "(string \<times> json) list \<Rightarrow> bool \<Rightarrow> message" where
  "app_message_of_dict d g =
     \<lparr> is_group = g, msg_id = app_safe_int (dict_get d ''id''),
       msg_type = app_safe_int (Some (case dict_get d ''type'' of None \<Rightarrow> JInt 0 | Some v \<Rightarrow> v)),
       content = (case dict_get d ''content'' of None \<Rightarrow> JStr [] | Some v \<Rightarrow> v),
       send_id = app_safe_int (dict_get d ''sendId''),
       recv_id = app_safe_int (dict_get d ''recvId''),
       group_id = app_safe_int (dict_get d ''groupId''),
       send_time = dict_get d ''sendTime'',
       sendNickName = dict_get d ''sendNickName'',
       quote_message = None, recalled_message_id = None \<rparr>"

fun app_message_init :: "json \<Rightarrow> bool \<Rightarrow> pyexc + message" where
  "app_message_init (JObj d) g = Inr (app_message_of_dict d g)"
| "app_message_init _ g = Inl AttributeError"

text \<open>
  \<open>catch_Exception ev r\<close> is \<^verbatim>\<open>try: r  except Exception as e: logger.error(...)\<close>: an
  exception of class \<^verbatim>\<open>Exception\<close> is logged and the block ends normally, any other
  exception goes on.
\<close>

definition catch_Exception :: "(pyexc \<Rightarrow> event) \<Rightarrow> 'h bot \<times> pyexc option \<Rightarrow> 'h bot \<times> pyexc option" where
  "catch_Exception ev r =
     (case r of
        (s, None) \<Rightarrow> (s, None)
      | (s, Some e) \<Rightarrow> (if is_Exception e then (emit (ev e) s, None) else (s, Some e)))"

definition app_dispatch_message :: "'h handler list \<Rightarrow> message \<Rightarrow> 'h bot \<Rightarrow> 'h bot \<times> pyexc option" where
  "app_dispatch_message hs m s = catch_Exception DispatchErrorLogged (dispatch_from 0 hs m s)"

fun app_handle_ws_message :: "'h registry \<Rightarrow> json \<Rightarrow> 'h bot \<Rightarrow> 'h bot \<times> pyexc option" where
  "app_handle_ws_message reg (JObj d) s =
     (let cmd = dict_get d ''cmd'';
          msg_data = (case dict_get d ''data'' of None \<Rightarrow> JObj [] | Some v \<Rightarrow> v)
      in catch_Exception FrameErrorLogged
          (if py_eq_int cmd PRIVATE_MESSAGE then
             (case app_message_init msg_data False of
                Inl e \<Rightarrow> (s, Some e)
              | Inr m \<Rightarrow> app_dispatch_message (private_handlers reg) m s)
           else if py_eq_int cmd GROUP_MESSAGE then
             (case app_message_init msg_data True of
                Inl e \<Rightarrow> (s, Some e)
              | Inr m \<Rightarrow> app_dispatch_message (group_handlers reg) m s)
           else if py_eq_int cmd SYSTEM_MESSAGE then (emit (SystemMessageLogged msg_data) s, None)
           else if py_eq_int cmd FORCE_OFFLINE then
             ((emit ForceOfflineLogged s)\<lparr>ws_running := False\<rparr>, None)
           else (s, None)))"
| "app_handle_ws_message reg _ s = (s, Some AttributeError)"

text \<open>
  \<^verbatim>\<open>
  async for message in self.ws_connection:
      try:
          data = json.loads(message)
          await self._handle_ws_message(data)
      except json.JSONDecodeError as e:
          logger.error(...)
      except Exception as e:
          logger.error(...)
  \<close>
\<close>

fun app_receive_frames :: "'h registry \<Rightarrow> wire list \<Rightarrow> pyexc option \<Rightarrow> 'h bot \<Rightarrow> 'h bot \<times> pyexc option" where
  "app_receive_frames reg [] fin s = (s, fin)"
| "app_receive_frames reg (NotJson t # fs) fin s =
     app_receive_frames reg fs fin (emit (DecodeErrorLogged t) s)"
| "app_receive_frames reg (Json d # fs) fin s =
     (case catch_Exception FrameErrorLogged (app_handle_ws_message reg d s) of
        (s', Some e) \<Rightarrow> (s', Some e)
      | (s', None) \<Rightarrow> app_receive_frames reg fs fin s')"

definition app_ws_receive :: "'h registry \<Rightarrow> wire list \<Rightarrow> pyexc option \<Rightarrow> 'h bot \<Rightarrow> 'h bot \<times> pyexc option" where
  "app_ws_receive reg fs fin s =
     catch_Exception ReceiveErrorLogged (app_receive_frames reg fs fin s)"

section \<open>bot\_core.py: connecting and the reconnect loop\<close>

text \<open>
  What the network does during one turn of the reconnect loop: the outcome of each of the
  three attempts to open the socket (\<open>None\<close>: opened), of sending the authentication
  frame, the frames received and how the stream ends, and what a re-login would give in
  this turn. A successful \<^verbatim>\<open>relogin\<close> disconnects and connects again, which leaves the
  run flag and the connected flag as the two booleans say.
\<close>

datatype relogin_result = ReloginFailed | ReloginOk bool bool | ReloginRaises pyexc

record cycle =
  open1 :: "pyexc option"
  open2 :: "pyexc option"
  open3 :: "pyexc option"
  auth_send :: "pyexc option"
  frames :: "wire list"
  stream_end :: "pyexc option"
  relogin_outcome :: relogin_result

record config =
  RECONNECT_DELAY :: int
  MAX_RECONNECT_DELAY :: int
  MAX_RECONNECT_ATTEMPTS :: int

text \<open>
  \<^verbatim>\<open>for attempt in range(3)\<close>: a failed attempt is retried, the third failure is raised.
  Both handlers catch subclasses of \<^verbatim>\<open>Exception\<close> only.
\<close>

definition open_connection :: "cycle \<Rightarrow> pyexc option" where
  "open_connection c =
     (case open1 c of
        None \<Rightarrow> None
      | Some e1 \<Rightarrow>
          (if \<not> is_Exception e1 then Some e1
           else (case open2 c of
                   None \<Rightarrow> None
                 | Some e2 \<Rightarrow> (if \<not> is_Exception e2 then Some e2 else open3 c))))"

text \<open>
  \<^verbatim>\<open>_ws_connect\<close>. Once the socket is open the attempt counter is reset and the connected
  flag is set; the authentication frame is sent outside the \<^verbatim>\<open>try ... finally\<close>, so a
  failure there leaves the flag set. The \<^verbatim>\<open>finally\<close> around the receive loop clears the
  flag. The heartbeat task runs beside the receive loop and can only clear the flag
  earlier; it is cancelled in the \<^verbatim>\<open>finally\<close>.
\<close>

definition ws_connect :: "'h registry \<Rightarrow> cycle \<Rightarrow> 'h bot \<Rightarrow> 'h bot \<times> pyexc option" where
  "ws_connect reg c s =
     (let s0 = emit (Connecting (ws_reconnect_count s + 1)) s in
      case open_connection c of
        Some e \<Rightarrow> (s0, Some e)
      | None \<Rightarrow>
          (let s1 = s0\<lparr>ws_reconnect_count := 0, ws_connected_flag := True\<rparr> in
           case auth_send c of
             Some e \<Rightarrow> (s1, Some e)
           | None \<Rightarrow>
               (case ws_receive reg (frames c) (stream_end c) s1 of
                  (s2, r) \<Rightarrow> (s2\<lparr>ws_connected_flag := False\<rparr>, r))))"

text \<open>
  The body of \<^verbatim>\<open>if consecutive_failures >= max_failures:\<close>. The second component is the
  local variable \<^verbatim>\<open>consecutive_failures\<close>.
\<close>

definition relogin_step :: "config \<Rightarrow> relogin_result \<Rightarrow> int \<Rightarrow> 'h bot \<Rightarrow> 'h bot \<times> int \<times> pyexc option" where
  "relogin_step cfg rl cf s =
     (if cf \<ge> MAX_RECONNECT_ATTEMPTS cfg then
        (case rl of
           ReloginOk run flag \<Rightarrow>
             ((emit Relogin s)\<lparr>ws_running := run, ws_connected_flag := flag, ws_reconnect_count := 0\<rparr>,
              0, None)
         | ReloginFailed \<Rightarrow> (emit Relogin s, MAX_RECONNECT_ATTEMPTS cfg - 1, None)
         | ReloginRaises e \<Rightarrow> (emit Relogin s, cf, Some e))
      else (s, cf, None))"

text \<open>
  \<^verbatim>\<open>
  self.ws_reconnect_count += 1
  delay = min(BotConfig.RECONNECT_DELAY * (2**self.ws_reconnect_count),
              BotConfig.MAX_RECONNECT_DELAY)
  await asyncio.sleep(delay)
  \<close>
\<close>

definition sleep_step :: "config \<Rightarrow> 'h bot \<Rightarrow> 'h bot" where
  "sleep_step cfg s =
     (let n = ws_reconnect_count s + 1 in
      emit (Sleep (min (RECONNECT_DELAY cfg * 2 ^ n) (MAX_RECONNECT_DELAY cfg)))
        (s\<lparr>ws_reconnect_count := n\<rparr>))"

text \<open>The block \<^verbatim>\<open>if self.ws_running and not self._ws_connected_flag:\<close> of the loop.\<close>

definition backoff :: "config \<Rightarrow> relogin_result \<Rightarrow> int \<Rightarrow> 'h bot \<Rightarrow> 'h bot \<times> int \<times> pyexc option" where
  "backoff cfg rl cf s =
     (if ws_running s \<and> \<not> ws_connected_flag s then
        (case relogin_step cfg rl cf s of
           (s', cf', Some e) \<Rightarrow> (s', cf', Some e)
         | (s', cf', None) \<Rightarrow> (sleep_step cfg s', cf', None))
      else (s, cf, None))"

text \<open>
  How an observed run of the loop ends: the loop condition became false (\<open>Exited\<close>), the
  script of network outcomes ran out while the loop was still going (\<open>Unfinished\<close>), the
  loop waits for another task to clear the connected flag (\<open>Waiting\<close>), or an exception
  left the loop.
\<close>

datatype loop_end = Exited | Unfinished | Waiting | Propagated pyexc

fun ws_loop :: "config \<Rightarrow> 'h registry \<Rightarrow> cycle list \<Rightarrow> int \<Rightarrow> 'h bot \<Rightarrow> 'h bot \<times> int \<times> loop_end" where
  "ws_loop cfg reg [] cf s =
     (if ws_running s then (s, cf, Unfinished) else (emit LoopExit s, cf, Exited))"
| "ws_loop cfg reg (c # cs) cf s =
     (if \<not> ws_running s then (emit LoopExit s, cf, Exited)
      else
        (case ws_connect reg c s of
           (s1, None) \<Rightarrow>
             (let s2 = s1\<lparr>ws_reconnect_count := 0\<rparr> in
              if ws_connected_flag s2 \<and> ws_running s2 then (s2, 0, Waiting)
              else (case backoff cfg (relogin_outcome c) 0 s2 of
                      (s3, cf3, Some e) \<Rightarrow> (s3, cf3, Propagated e)
                    | (s3, cf3, None) \<Rightarrow> ws_loop cfg reg cs cf3 s3))
         | (s1, Some e) \<Rightarrow>
             (if is_Exception e then
                (case backoff cfg (relogin_outcome c) (cf + 1) (emit (WsExceptionLogged e) s1) of
                   (s3, cf3, Some e') \<Rightarrow> (s3, cf3, Propagated e')
                 | (s3, cf3, None) \<Rightarrow> ws_loop cfg reg cs cf3 s3)
              else (s1, cf, Propagated e))))"

text \<open>The sleeps of a trace, and how many re-logins and connection attempts it holds.\<close>

fun sleeps :: "event list \<Rightarrow> int list" where
  "sleeps [] = []"
| "sleeps (Sleep d # es) = d # sleeps es"
| "sleeps (e # es) = sleeps es"

fun relogins :: "event list \<Rightarrow> nat" where
  "relogins [] = 0"
| "relogins (Relogin # es) = Suc (relogins es)"
| "relogins (e # es) = relogins es"

fun connects :: "event list \<Rightarrow> nat" where
  "connects [] = 0"
| "connects (Connecting n # es) = Suc (connects es)"
| "connects (e # es) = connects es"

section \<open>Observations on traces and example inputs\<close>

text \<open>
  The handler calls and the logged handler errors of a trace. \<open>raised\<close> gives, for a list
  of handlers called one after the other on a message, which of them raise and what.
\<close>

fun runs :: "event list \<Rightarrow> (nat \<times> message) list" where
  "runs [] = []"
| "runs (HandlerRun i m # es) = (i, m) # runs es"
| "runs (e # es) = runs es"

fun handler_errors :: "event list \<Rightarrow> (nat \<times> pyexc) list" where
  "handler_errors [] = []"
| "handler_errors (HandlerErrorLogged i e # es) = (i, e) # handler_errors es"
| "handler_errors (e # es) = handler_errors es"

fun raised :: "nat \<Rightarrow> 'h handler list \<Rightarrow> message \<Rightarrow> 'h \<Rightarrow> (nat \<times> pyexc) list" where
  "raised i [] m st = []"
| "raised i (h # hs) m st =
     (case h m st of
        (None, st') \<Rightarrow> raised (Suc i) hs m st'
      | (Some e, st') \<Rightarrow> (i, e) # raised (Suc i) hs m st')"

text \<open>The frame that carries a private or a group message, and the handlers of its category.\<close>

definition frame_of :: "bool \<Rightarrow> json \<Rightarrow> json" where
  "frame_of g data = JObj [(''cmd'', JInt (if g then GROUP_MESSAGE else PRIVATE_MESSAGE)), (''data'', data)]"

definition handlers_of :: "'h registry \<Rightarrow> bool \<Rightarrow> 'h handler list" where
  "handlers_of reg g = (if g then group_handlers reg else private_handlers reg)"

text \<open>Two handlers, one that always raises and one that counts; a registry and a message.\<close>

definition h_fail :: "nat handler" where
  "h_fail m st = (Some ValueError, st)"

definition h_count :: "nat handler" where
  "h_count m st = (None, Suc st)"

definition reg2 :: "nat registry" where
  "reg2 = \<lparr>private_handlers = [h_fail, h_count], group_handlers = []\<rparr>"

definition idle :: "'h \<Rightarrow> 'h bot" where
  "idle st = \<lparr>ws_running = True, ws_connected_flag = True, ws_reconnect_count = 0,
              handlers_state = st, trace = []\<rparr>"

definition msg1 :: message where
  "msg1 = \<lparr> is_group = False, msg_id = Some 1, msg_type = Some 0, content = JStr [],
     send_id = None, recv_id = None, group_id = None, send_time = None, sendNickName = None,
     quote_message = None, recalled_message_id = None \<rparr>"

text \<open>
  A turn in which the socket cannot be opened: the third attempt raises, or an attempt
  raises an \<^verbatim>\<open>Exception\<close> that the loop logs. \<open>backoff_delay\<close> is the delay of the loop
  for a given value of the attempt counter.
\<close>

definition fails_to_open :: "cycle \<Rightarrow> bool" where
  "fails_to_open c = (case open_connection c of None \<Rightarrow> False | Some e \<Rightarrow> is_Exception e)"

definition backoff_delay :: "config \<Rightarrow> nat \<Rightarrow> int" where
  "backoff_delay cfg n = min (RECONNECT_DELAY cfg * 2 ^ n) (MAX_RECONNECT_DELAY cfg)"

text \<open>
  A supervisor that has just been started, a turn in which all three attempts to open the
  socket time out and the re-login fails, and the default settings of config.py.
\<close>

definition started :: "'h \<Rightarrow> 'h bot" where
  "started st = \<lparr>ws_running = True, ws_connected_flag = False, ws_reconnect_count = 0,
                 handlers_state = st, trace = []\<rparr>"

definition failing_cycle :: cycle where
  "failing_cycle = \<lparr>open1 = Some TimeoutError, open2 = Some TimeoutError, open3 = Some TimeoutError,
     auth_send = None, frames = [], stream_end = None, relogin_outcome = ReloginFailed\<rparr>"

definition default_config :: config where
  "default_config = \<lparr>RECONNECT_DELAY = 3, MAX_RECONNECT_DELAY = 60, MAX_RECONNECT_ATTEMPTS = 10\<rparr>"

text \<open>A turn in which the socket opens, the given frames arrive and the peer closes.\<close>

definition session :: "wire list \<Rightarrow> cycle" where
  "session fs = \<lparr>open1 = None, open2 = None, open3 = None,
     auth_send = None, frames = fs, stream_end = None, relogin_outcome = ReloginFailed\<rparr>"


text \<open>
  A connection on which a heartbeat echo, the forced-offline frame and one more private
  message arrive.
\<close>

definition kicked :: cycle where
  "kicked = session [Json (JObj [(''cmd'', JInt 1)]), Json (JObj [(''cmd'', JInt 2)]),
                     Json (frame_of False (JObj [(''id'', JInt 1)]))]"

section \<open>bot\_core.py: login, \<^verbatim>\<open>is_logged_in\<close> and token refresh\<close>

text \<open>
  The session fields of the object, and the network requests made, in order. Times are
  seconds as \<^verbatim>\<open>time.time()\<close> returns them; one call of a method reads one time.
\<close>

datatype net_call = LoginPost | RefreshPost | SelfInfoGet

record session =
  access_token :: "string option"
  refresh_token :: "string option"
  access_token_expires :: real
  refresh_token_expires :: real
  user_id :: "json option"
  username :: string
  password :: string
  last_token_refresh_time :: real
  token_refresh_cooldown :: real
  is_refreshing_token :: bool
  net_calls :: "net_call list"

text \<open>
  \<^verbatim>\<open>
  if not self.access_token: return False
  if current_time >= (self.access_token_expires - 300): return False
  return True
  \<close>
\<close>

definition is_logged_in :: "session \<Rightarrow> real \<Rightarrow> bool" where
  "is_logged_in s now =
     (case access_token s of
        None \<Rightarrow> False
      | Some t \<Rightarrow> (if t = [] then False
                   else if now \<ge> access_token_expires s - 300 then False
                   else True))"

text \<open>
  What the login endpoint answers: the request raises, the HTTP status is not 200, the
  body's code is not 200, or the body carries the two tokens and their lifetimes.
  What the self-info call gives: \<^verbatim>\<open>get_self_info\<close> goes through the HTTP helper, which
  raises on any failure, and returns the \<^verbatim>\<open>data\<close> member of the answer.
\<close>

datatype login_response =
    PostRaises pyexc
  | HttpStatus nat
  | ApiCode int
  | LoginOk string string real real

datatype self_info = SelfInfoRaises pyexc | SelfInfoData json

text \<open>Truth value of a Python value, \<^verbatim>\<open>str.split('.')\<close>, and \<^verbatim>\<open>sub in s\<close> on strings.\<close>

fun truthy :: "json \<Rightarrow> bool" where
  "truthy JNull = False"
| "truthy (JBool b) = b"
| "truthy (JInt n) = (n \<noteq> 0)"
| "truthy (JFloat (Finite x)) = (x \<noteq> 0)"
| "truthy (JFloat f) = True"
| "truthy (JStr s) = (s \<noteq> [])"
| "truthy (JArr xs) = (xs \<noteq> [])"
| "truthy (JObj kvs) = (kvs \<noteq> [])"

fun split_dot :: "string \<Rightarrow> string list" where
  "split_dot [] = [[]]"
| "split_dot (c # cs) =
     (if c = CHR ''.'' then [] # split_dot cs
      else (case split_dot cs of p # ps \<Rightarrow> (c # p) # ps | [] \<Rightarrow> [[c]]))"

fun contains :: "string \<Rightarrow> string \<Rightarrow> bool" where
  "contains [] p = (p = [])"
| "contains (c # cs) p = (take (length p) (c # cs) = p \<or> contains cs p)"

text \<open>
  \<^verbatim>\<open>
  user_id = None
  if 'userId' in payload_data:   user_id = payload_data['userId']
  elif 'sub' in payload_data:    user_id = payload_data['sub']
  elif 'user_id' in payload_data: user_id = payload_data['user_id']
  \<close>
  on whatever value the payload decodes to: on a list or a string the test \<^verbatim>\<open>in\<close> is
  membership, and the subscript with a string then raises \<^verbatim>\<open>TypeError\<close>; on a number,
  a boolean or null the test itself raises.
\<close>

fun claim_lookup :: "json \<Rightarrow> pyexc + json option" where
  "claim_lookup (JObj d) =
     (case dict_get d ''userId'' of
        Some v \<Rightarrow> Inr (Some v)
      | None \<Rightarrow>
          (case dict_get d ''sub'' of
             Some v \<Rightarrow> Inr (Some v)
           | None \<Rightarrow> Inr (dict_get d ''user_id'')))"
| "claim_lookup (JArr xs) =
     (if JStr ''userId'' \<in> set xs \<or> JStr ''sub'' \<in> set xs \<or> JStr ''user_id'' \<in> set xs
      then Inl TypeError else Inr None)"
| "claim_lookup (JStr s) =
     (if contains s ''userId'' \<or> contains s ''sub'' \<or> contains s ''user_id''
      then Inl TypeError else Inr None)"
| "claim_lookup _ = Inl TypeError"

text \<open>
  \<^verbatim>\<open>
  user_info = await self.user.get_self_info()
  if user_info and user_info.get('id'):
      self.user_id = user_info['id']
  else:
      return False
  \<close>
  The result is the id found, \<open>Inr None\<close> for the \<^verbatim>\<open>return False\<close>, or the exception raised
  by the call or by \<^verbatim>\<open>.get\<close> on a value that is not a dict.
\<close>

definition id_of_self_info :: "self_info \<Rightarrow> pyexc + json option" where
  "id_of_self_info r =
     (case r of
        SelfInfoRaises e \<Rightarrow> Inl e
      | SelfInfoData v \<Rightarrow>
          (if \<not> truthy v then Inr None
           else (case v of
                   JObj d \<Rightarrow>
                     (case dict_get d ''id'' of
                        None \<Rightarrow> Inr None
                      | Some i \<Rightarrow> (if truthy i then Inr (Some i) else Inr None))
                 | _ \<Rightarrow> Inl AttributeError)))"

text \<open>
  The \<^verbatim>\<open>try\<close> block of \<^verbatim>\<open>login\<close> that reads the subject from the token. \<open>decode\<close> stands for
  padding the middle segment, \<^verbatim>\<open>base64.urlsafe_b64decode\<close>, \<^verbatim>\<open>decode('utf-8')\<close> and
  \<^verbatim>\<open>json.loads\<close>, \<open>None\<close> when one of them raises (each time a subclass of
  \<^verbatim>\<open>ValueError\<close>). The number returned is how many self-info calls were made.
\<close>

datatype resolution = Resolved json | GiveUp | Raised pyexc

definition ask_self_info :: "self_info \<Rightarrow> nat \<Rightarrow> resolution \<times> nat" where
  "ask_self_info si n =
     (case id_of_self_info si of
        Inl e \<Rightarrow> (Raised e, Suc n)
      | Inr None \<Rightarrow> (GiveUp, Suc n)
      | Inr (Some i) \<Rightarrow> (Resolved i, Suc n))"

definition try_token :: "(string \<Rightarrow> json option) \<Rightarrow> string \<Rightarrow> self_info \<Rightarrow> resolution \<times> nat" where
  "try_token decode tok si1 =
     (let parts = split_dot tok in
      if length parts \<noteq> 3 then (Raised ValueError, 0)
      else (case decode (parts ! 1) of
              None \<Rightarrow> (Raised ValueError, 0)
            | Some payload \<Rightarrow>
                (case claim_lookup payload of
                   Inl e \<Rightarrow> (Raised e, 0)
                 | Inr None \<Rightarrow> ask_self_info si1 0
                 | Inr (Some v) \<Rightarrow>
                     (if truthy v then
                        (case py_int v of
                           Inl e \<Rightarrow> (Raised e, 0)
                         | Inr n \<Rightarrow> (Resolved (JInt n), 0))
                      else ask_self_info si1 0))))"

text \<open>
  The \<^verbatim>\<open>except Exception\<close> of that block asks the self-info call again, whatever was
  raised in the block. \<open>si1\<close> and \<open>si2\<close> are the outcomes of the first and of the second
  self-info call, if they are made.
\<close>

definition resolve_user_id :: "(string \<Rightarrow> json option) \<Rightarrow> string \<Rightarrow> self_info \<Rightarrow> self_info \<Rightarrow> resolution \<times> nat" where
  "resolve_user_id decode tok si1 si2 =
     (case try_token decode tok si1 of
        (Raised e, n) \<Rightarrow>
          (if is_Exception e then ask_self_info (if n = 0 then si1 else si2) n
           else (Raised e, n))
      | r \<Rightarrow> r)"

text \<open>
  \<^verbatim>\<open>login\<close>. The tokens and their expiry times are stored as soon as the endpoint answers
  with code 200, before the subject is resolved. The outer \<^verbatim>\<open>except Exception\<close> turns
  an exception into \<^verbatim>\<open>return False\<close>.
\<close>

definition finish_login :: "real \<Rightarrow> session \<Rightarrow> resolution \<times> nat \<Rightarrow> (pyexc + bool) \<times> session" where
  "finish_login now s r =
     (case r of
        (Resolved i, n) \<Rightarrow>
          (Inr True, s\<lparr>user_id := Some i, last_token_refresh_time := now,
                        net_calls := net_calls s @ replicate n SelfInfoGet\<rparr>)
      | (GiveUp, n) \<Rightarrow> (Inr False, s\<lparr>net_calls := net_calls s @ replicate n SelfInfoGet\<rparr>)
      | (Raised e, n) \<Rightarrow>
          (if is_Exception e then Inr False else Inl e,
           s\<lparr>net_calls := net_calls s @ replicate n SelfInfoGet\<rparr>))"

definition login :: "(string \<Rightarrow> json option) \<Rightarrow> real \<Rightarrow> login_response \<Rightarrow> self_info \<Rightarrow> self_info \<Rightarrow>
    string \<Rightarrow> string \<Rightarrow> session \<Rightarrow> (pyexc + bool) \<times> session" where
  "login decode now resp si1 si2 u p s =
     (let s1 = s\<lparr>username := u, password := p, access_token := None, refresh_token := None,
                  net_calls := net_calls s @ [LoginPost]\<rparr>
      in case resp of
           PostRaises e \<Rightarrow> (if is_Exception e then Inr False else Inl e, s1)
         | HttpStatus n \<Rightarrow> (Inr False, s1)
         | ApiCode n \<Rightarrow> (Inr False, s1)
         | LoginOk tok rtok ein rein \<Rightarrow>
             finish_login now
               (s1\<lparr>access_token := Some tok, refresh_token := Some rtok,
                    access_token_expires := now + ein, refresh_token_expires := now + rein\<rparr>)
               (resolve_user_id decode tok si1 si2))"

text \<open>
  \<^verbatim>\<open>refresh_token_if_needed\<close>:
  \<^verbatim>\<open>
  if self._is_refreshing_token:
      logger.info(...)
      return False
  if current_time - self._last_token_refresh_time < self._token_refresh_cooldown:
      return True
  if current_time >= (self.access_token_expires - 300):
      self._is_refreshing_token = True
      try: ... except Exception: return False
      finally: self._is_refreshing_token = False
  return True
  \<close>
\<close>

datatype refresh_response =
    RefreshRaises pyexc
  | RefreshHttp nat
  | RefreshApiCode int
  | RefreshOk string "string option" real "real option"

definition refresh_token_if_needed :: "(string \<Rightarrow> json option) \<Rightarrow> real \<Rightarrow> refresh_response \<Rightarrow>
    login_response \<Rightarrow> self_info \<Rightarrow> self_info \<Rightarrow> session \<Rightarrow> (pyexc + bool) \<times> session" where
  "refresh_token_if_needed decode now rresp lresp si1 si2 s =
     (if is_refreshing_token s then (Inr False, s)
      else if now - last_token_refresh_time s < token_refresh_cooldown s then (Inr True, s)
      else if now \<ge> access_token_expires s - 300 then
        (let s1 = s\<lparr>is_refreshing_token := True, net_calls := net_calls s @ [RefreshPost]\<rparr> in
         case rresp of
           RefreshOk tok rtok ein rein \<Rightarrow>
             (Inr True,
              s1\<lparr>access_token := Some tok,
                  refresh_token := (case rtok of None \<Rightarrow> refresh_token s1 | Some t \<Rightarrow> Some t),
                  access_token_expires := now + ein,
                  refresh_token_expires :=
                    (case rein of None \<Rightarrow> refresh_token_expires s1 | Some x \<Rightarrow> now + x),
                  last_token_refresh_time := now,
                  is_refreshing_token := False\<rparr>)
         | RefreshRaises e \<Rightarrow>
             (if is_Exception e then Inr False else Inl e, s1\<lparr>is_refreshing_token := False\<rparr>)
         | _ \<Rightarrow>
             (case login decode now lresp si1 si2 (username s1) (password s1) s1 of
                (Inr True, s2) \<Rightarrow>
                  (Inr True, s2\<lparr>last_token_refresh_time := now, is_refreshing_token := False\<rparr>)
              | (r, s2) \<Rightarrow> (r, s2\<lparr>is_refreshing_token := False\<rparr>)))
      else (Inr True, s))"

text \<open>A fresh object, and a decoder that knows the segment \<^verbatim>\<open>e30\<close>, the encoding of \<^verbatim>\<open>{}\<close>.\<close>

definition new_session :: session where
  "new_session = \<lparr>access_token = None, refresh_token = None, access_token_expires = 0,
     refresh_token_expires = 0, user_id = None, username = ''ENLT'', password = ''114514'',
     last_token_refresh_time = 0, token_refresh_cooldown = 30, is_refreshing_token = False,
     net_calls = []\<rparr>"

definition decode_empty_object :: "string \<Rightarrow> json option" where
  "decode_empty_object seg = (if seg = ''e30'' then Some (JObj []) else None)"

section \<open>app.py: the rate guard of \<^verbatim>\<open>LevelSystem\<close>\<close>

text \<open>
  The record kept per user. The six fields added in later versions may be missing from a
  stored record (\<open>None\<close>); \<^verbatim>\<open>_get_user_data\<close> fills them in on every access.
\<close>

datatype label = Ordinary | Active | Senior | Legend | Myth | Peak | Invincible

record user_rec =
  exp :: int
  level :: int
  total_messages :: int
  last_message_time :: real
  stored_spam_warnings :: int
  last_warning_time :: real
  current_label :: label
  points :: "int option"
  last_sign_date :: "string option option"
  consecutive_days :: "int option"
  total_sign_days :: "int option"
  lottery_count :: "int option"
  lottery_wins :: "int option"

definition default_user :: user_rec where
  "default_user = \<lparr>exp = 0, level = 1, total_messages = 0, last_message_time = 0,
     stored_spam_warnings = 0, last_warning_time = 0, current_label = Ordinary,
     points = Some 0, last_sign_date = Some None, consecutive_days = Some 0,
     total_sign_days = Some 0, lottery_count = Some 0, lottery_wins = Some 0\<rparr>"

definition or_default :: "'a option \<Rightarrow> 'a \<Rightarrow> 'a option" where
  "or_default v d = (case v of None \<Rightarrow> Some d | Some x \<Rightarrow> Some x)"

definition fill_defaults :: "user_rec \<Rightarrow> user_rec" where
  "fill_defaults r =
     r\<lparr>points := or_default (points r) 0,
       last_sign_date := or_default (last_sign_date r) None,
       consecutive_days := or_default (consecutive_days r) 0,
       total_sign_days := or_default (total_sign_days r) 0,
       lottery_count := or_default (lottery_count r) 0,
       lottery_wins := or_default (lottery_wins r) 0\<rparr>"

text \<open>What the guard sends, and which way a call of \<^verbatim>\<open>add_experience\<close> went.\<close>

datatype notice = BlockWarning int | ResetNotice int | LevelUpNotice int int int

datatype outcome = Ignored | FirstOffense | DestructiveReset | Gained

record guard =
  user_message_times :: "int \<rightharpoonup> real list"
  spam_warnings :: "int \<rightharpoonup> int"
  temp_blacklist :: "int \<rightharpoonup> real"
  user_data :: "int \<rightharpoonup> user_rec"
  sent :: "notice list"

definition get_user_data :: "int \<Rightarrow> guard \<Rightarrow> guard" where
  "get_user_data u s =
     (case user_data s u of
        None \<Rightarrow> s\<lparr>user_data := (user_data s)(u \<mapsto> default_user)\<rparr>
      | Some r \<Rightarrow> s\<lparr>user_data := (user_data s)(u \<mapsto> fill_defaults r)\<rparr>)"

text \<open>
  \<^verbatim>\<open>_calculate_level_from_exp\<close>: \<^verbatim>\<open>round((level * level) / 2)\<close> is the integer quotient,
  since a half is rounded to the even neighbour, which here is the one below.
\<close>

function level_from :: "int \<Rightarrow> nat \<Rightarrow> int \<Rightarrow> nat" where
  "level_from e lv acc =
     (if e \<ge> acc + int ((lv * lv) div 2)
      then (if lv + 1 > 999 then lv + 1 else level_from e (lv + 1) (acc + int ((lv * lv) div 2)))
      else lv)"
  by pat_completeness auto
termination
  by (relation "measure (\<lambda>(e, lv, acc). 1000 - lv)") auto

definition calculate_level_from_exp :: "int \<Rightarrow> int" where
  "calculate_level_from_exp e = int (level_from e 1 0)"

definition get_user_label :: "int \<Rightarrow> label" where
  "get_user_label lv =
     (if 1 \<le> lv \<and> lv \<le> 10 then Ordinary
      else if 11 \<le> lv \<and> lv \<le> 20 then Active
      else if 21 \<le> lv \<and> lv \<le> 30 then Senior
      else if 31 \<le> lv \<and> lv \<le> 35 then Legend
      else if 36 \<le> lv \<and> lv \<le> 45 then Myth
      else if 46 \<le> lv \<and> lv \<le> 99 then Peak
      else Invincible)"

text \<open>
  \<^verbatim>\<open>_handle_spam\<close>, with the time it reads:
  \<^verbatim>\<open>
  if user_id not in self.spam_warnings: self.spam_warnings[user_id] = 0
  self.spam_warnings[user_id] += 1
  if self.spam_warnings[user_id] == 1:
      self.temp_blacklist[user_id] = current_time + 60
      ...
  else:
      await self._reset_user_data(user_id)
      ...
      self.spam_warnings[user_id] = 0
      if user_id in self.temp_blacklist: del self.temp_blacklist[user_id]
      if user_id in self.user_message_times: del self.user_message_times[user_id]
  \<close>
\<close>

definition handle_spam :: "int \<Rightarrow> real \<Rightarrow> guard \<Rightarrow> outcome \<times> guard" where
  "handle_spam u now s =
     (let w = (case spam_warnings s u of None \<Rightarrow> 0 | Some w \<Rightarrow> w) + 1 in
      if w = 1 then
        (FirstOffense,
         s\<lparr>spam_warnings := (spam_warnings s)(u \<mapsto> w),
           temp_blacklist := (temp_blacklist s)(u \<mapsto> now + 60),
           sent := sent s @ [BlockWarning u]\<rparr>)
      else
        (DestructiveReset,
         s\<lparr>user_data := (user_data s)(u \<mapsto> default_user),
           sent := sent s @ [ResetNotice u],
           spam_warnings := (spam_warnings s)(u \<mapsto> 0),
           temp_blacklist := (temp_blacklist s)(u := None),
           user_message_times := (user_message_times s)(u := None)\<rparr>))"

text \<open>
  The part of \<^verbatim>\<open>add_experience\<close> after the spam check: experience, level and label, and
  the level-up message. Saving the data and the statistics of the dashboard are calls into
  other components and leave the guard as it is.
\<close>

definition gain :: "int \<Rightarrow> real \<Rightarrow> guard \<Rightarrow> guard" where
  "gain u now s =
     (case user_data s u of
        None \<Rightarrow> s
      | Some r \<Rightarrow>
          (let r1 = r\<lparr>exp := exp r + 1, total_messages := total_messages r + 1,
                      last_message_time := now\<rparr>;
               new_level = calculate_level_from_exp (exp r1)
           in if new_level > level r1 then
                (let new_label = get_user_label new_level;
                     r2 = r1\<lparr>level := new_level\<rparr>;
                     r3 = (if new_label \<noteq> current_label r1 then r2\<lparr>current_label := new_label\<rparr> else r2)
                 in s\<lparr>user_data := (user_data s)(u \<mapsto> r3),
                      sent := sent s @ [LevelUpNotice u (level r1) new_level]\<rparr>)
              else s\<lparr>user_data := (user_data s)(u \<mapsto> r1)\<rparr>))"

text \<open>
  \<^verbatim>\<open>add_experience\<close>, with the time it reads and the time \<^verbatim>\<open>_handle_spam\<close> would read.
  The Python function returns \<^verbatim>\<open>True\<close> exactly when the outcome is \<open>Gained\<close>.
\<close>

definition add_experience :: "int \<Rightarrow> real \<Rightarrow> real \<Rightarrow> guard \<Rightarrow> outcome \<times> guard" where
  "add_experience u now now_spam s0 =
     (let s = get_user_data u s0 in
      case temp_blacklist s u of
        Some until \<Rightarrow>
          (if now < until then (Ignored, s)
           else
             (let s1 = s\<lparr>temp_blacklist := (temp_blacklist s)(u := None),
                         spam_warnings := (spam_warnings s)(u := None)\<rparr>;
                  ts = filter (\<lambda>t. t > now - 5)
                         ((case user_message_times s1 u of None \<Rightarrow> [] | Some l \<Rightarrow> l) @ [now]);
                  s2 = s1\<lparr>user_message_times := (user_message_times s1)(u \<mapsto> ts)\<rparr>
              in if length ts \<ge> 5 then handle_spam u now_spam s2 else (Gained, gain u now s2)))
      | None \<Rightarrow>
          (let ts = filter (\<lambda>t. t > now - 5)
                      ((case user_message_times s u of None \<Rightarrow> [] | Some l \<Rightarrow> l) @ [now]);
               s2 = s\<lparr>user_message_times := (user_message_times s)(u \<mapsto> ts)\<rparr>
           in if length ts \<ge> 5 then handle_spam u now_spam s2 else (Gained, gain u now s2)))"

text \<open>A sequence of inbound messages: sender, time read, time read by the spam handler.\<close>

fun run_guard :: "(int \<times> real \<times> real) list \<Rightarrow> guard \<Rightarrow> outcome list \<times> guard" where
  "run_guard [] s = ([], s)"
| "run_guard ((u, now, now_spam) # ms) s =
     (case add_experience u now now_spam s of
        (out, s') \<Rightarrow> (case run_guard ms s' of (outs, s'') \<Rightarrow> (out # outs, s'')))"

definition new_guard :: "(int \<rightharpoonup> user_rec) \<Rightarrow> guard" where
  "new_guard stored = \<lparr>user_message_times = Map.empty, spam_warnings = Map.empty,
     temp_blacklist = Map.empty, user_data = stored, sent = []\<rparr>"

text \<open>
  A record with all its fields, on which \<^verbatim>\<open>_get_user_data\<close> changes nothing; and the
  invariant of the guard: a warning counter exists only for a sender on the temporary
  blacklist and is then 1, and a sender on the blacklist has a record with all fields.
\<close>

definition complete :: "user_rec \<Rightarrow> bool" where
  "complete r = (points r \<noteq> None \<and> last_sign_date r \<noteq> None \<and> consecutive_days r \<noteq> None \<and>
     total_sign_days r \<noteq> None \<and> lottery_count r \<noteq> None \<and> lottery_wins r \<noteq> None)"

definition guard_inv :: "guard \<Rightarrow> bool" where
  "guard_inv s = (\<forall>u. (spam_warnings s u \<noteq> None \<longrightarrow>
                        spam_warnings s u = Some 1 \<and> temp_blacklist s u \<noteq> None) \<and>
                      (temp_blacklist s u \<noteq> None \<longrightarrow> (\<exists>r. user_data s u = Some r \<and> complete r)))"




text \<open>
  A turn in which the socket opens, the authentication frame is sent, the receive loop
  ends without an exception and the run flag is left as it was: the connection was active
  and ended. And a turn in which the socket opens and sending the authentication frame
  times out.
\<close>

definition ends_normally :: "'h registry \<Rightarrow> cycle \<Rightarrow> bool" where
  "ends_normally reg c =
     (open_connection c = None \<and> auth_send c = None \<and>
      (\<forall>s. snd (ws_receive reg (frames c) (stream_end c) s) = None \<and>
           ws_running (fst (ws_receive reg (frames c) (stream_end c) s)) = ws_running s))"

definition auth_failing :: cycle where
  "auth_failing = \<lparr>open1 = None, open2 = None, open3 = None,
     auth_send = Some TimeoutError, frames = [], stream_end = None, relogin_outcome = ReloginFailed\<rparr>"

section \<open>Properties\<close>

subsection \<open>Conversion of id-like fields\<close>

lemma lower_none [simp]: "lower ''none'' = ''none''"
  by (simp add: lower_def lower_char_def)

lemma safe_int_absent: "safe_int None = Inr None \<and> safe_int (Some JNull) = Inr None"
  by simp

lemma safe_int_int: "safe_int (Some (JInt n)) = Inr (Some n)"
  by (simp add: catch_value_type_def)

lemma safe_int_finite: "safe_int (Some (JFloat (Finite x))) = Inr (Some (trunc x))"
  by (simp add: catch_value_type_def)

lemma safe_int_nan: "safe_int (Some (JFloat NaN)) = Inr None"
  by (simp add: catch_value_type_def)

lemma safe_int_str_no_raise: "\<exists>r. safe_int (Some (JStr s)) = Inr r"
  by (simp add: catch_value_type_def int_of_str_def split: list.splits option.splits)

lemma app_safe_int_total: "app_safe_int (Some (JFloat PosInf)) = None"
  by simp

text \<open>
  C9. The claim: parsing an id-like field of an inbound message never raises, and a value
  that cannot be parsed yields null. In message\_handlers.py the conversion catches
  \<^verbatim>\<open>ValueError\<close> and \<^verbatim>\<open>TypeError\<close> only: on a frame whose \<^verbatim>\<open>id\<close> is a number that
  \<^verbatim>\<open>json.loads\<close> reads as the float infinity (\<^verbatim>\<open>1e999\<close>), \<^verbatim>\<open>int\<close> raises
  \<^verbatim>\<open>OverflowError\<close>, which leaves \<^verbatim>\<open>_safe_int\<close> and the constructor of the message.
\<close>

theorem safe_int_infinity_raises:
  "safe_int (Some (JFloat PosInf)) = Inl OverflowError \<and>
   message_init (JObj [(''id'', JFloat PosInf)]) False = Inl OverflowError"
  by (simp add: catch_value_type_def message_of_dict_def then_exc_def dict_get_def)

subsection \<open>Dispatch\<close>

lemma runs_append: "runs (xs @ ys) = runs xs @ runs ys"
  by (induction xs rule: runs.induct) simp_all

lemma handler_errors_append: "handler_errors (xs @ ys) = handler_errors xs @ handler_errors ys"
  by (induction xs rule: handler_errors.induct) simp_all

lemma sleeps_append: "sleeps (xs @ ys) = sleeps xs @ sleeps ys"
  by (induction xs rule: sleeps.induct) simp_all

lemma relogins_append: "relogins (xs @ ys) = relogins xs + relogins ys"
  by (induction xs rule: relogins.induct) simp_all

lemma connects_append: "connects (xs @ ys) = connects xs + connects ys"
  by (induction xs rule: connects.induct) simp_all

lemma upt_shift: "[i ..< i + length (h # hs)] = i # [Suc i ..< Suc i + length hs]"
  by (simp add: upt_conv_Cons del: upt_Suc)

lemma dispatch_from_runs_all:
  "\<forall>h \<in> set hs. \<forall>st e. fst (h m st) = Some e \<longrightarrow> is_Exception e \<Longrightarrow>
   dispatch_from i hs m s = (s', r) \<Longrightarrow>
   r = None \<and>
   runs (trace s') = runs (trace s) @ map (\<lambda>j. (j, m)) [i ..< i + length hs] \<and>
   handler_errors (trace s') = handler_errors (trace s) @ raised i hs m (handlers_state s) \<and>
   ws_running s' = ws_running s \<and> ws_connected_flag s' = ws_connected_flag s \<and>
   ws_reconnect_count s' = ws_reconnect_count s"
proof (induction hs arbitrary: i s)
  case Nil
  then show ?case by simp
next
  case (Cons h hs)
  obtain o1 st where h: "h m (handlers_state s) = (o1, st)" by (cases "h m (handlers_state s)")
  have rest: "\<forall>h \<in> set hs. \<forall>st e. fst (h m st) = Some e \<longrightarrow> is_Exception e"
    using Cons.prems(1) by simp
  show ?case
  proof (cases o1)
    case None
    with h Cons.prems(2) have d: "dispatch_from (Suc i) hs m (emit (HandlerRun i m) (s\<lparr>handlers_state := st\<rparr>)) = (s', r)"
      by simp
    from Cons.IH[OF rest d] h None show ?thesis
      by (simp add: emit_def runs_append handler_errors_append upt_shift del: upt_Suc list.size)
  next
    case (Some e)
    with h Cons.prems(1) have ex: "is_Exception e" by (metis fst_conv list.set_intros(1))
    with Some h Cons.prems(2) have d: "dispatch_from (Suc i) hs m
        (emit (HandlerErrorLogged i e) (emit (HandlerRun i m) (s\<lparr>handlers_state := st\<rparr>))) = (s', r)"
      by simp
    from Cons.IH[OF rest d] h Some show ?thesis
      by (simp add: emit_def runs_append handler_errors_append upt_shift del: upt_Suc list.size)
  qed
qed

lemma handle_frame_of:
  "handle_ws_message reg (frame_of g data) s =
     (case message_init data g of Inl e \<Rightarrow> (s, Some e)
      | Inr m \<Rightarrow> dispatch_message (handlers_of reg g) m s)"
  by (cases g; simp add: frame_of_def handlers_of_def dict_get_def PRIVATE_MESSAGE_def GROUP_MESSAGE_def split: sum.splits)

lemma app_handle_frame_of:
  "app_handle_ws_message reg (frame_of g data) s =
     catch_Exception FrameErrorLogged
       (case app_message_init data g of Inl e \<Rightarrow> (s, Some e)
        | Inr m \<Rightarrow> app_dispatch_message (handlers_of reg g) m s)"
  by (cases g; simp add: frame_of_def handlers_of_def dict_get_def PRIVATE_MESSAGE_def GROUP_MESSAGE_def split: sum.splits)

text \<open>
  C8. When no handler of the category leaves through something that is not an
  \<^verbatim>\<open>Exception\<close> (task cancellation), dispatching a message calls every registered
  handler of the category, in registration order, on that same message, whatever the
  earlier ones raise; each raised exception is logged on its own; the dispatch returns
  normally, and the receive loop goes on with the next frame. This holds for the dispatch
  of bot\_core.py and for the one of app.py.
\<close>

theorem handler_failures_isolated:
  assumes wb: "\<forall>h \<in> set (handlers_of reg g). \<forall>m st e. fst (h m st) = Some e \<longrightarrow> is_Exception e"
      and mi: "message_of_dict d g = Inr m"
  shows "\<exists>s1 s2.
     dispatch_message (handlers_of reg g) m s = (s1, None) \<and>
     runs (trace s1) = runs (trace s) @ map (\<lambda>j. (j, m)) [0 ..< length (handlers_of reg g)] \<and>
     handler_errors (trace s1) =
       handler_errors (trace s) @ raised 0 (handlers_of reg g) m (handlers_state s) \<and>
     receive_frames reg (Json (frame_of g (JObj d)) # fs) fin s = receive_frames reg fs fin s1 \<and>
     app_dispatch_message (handlers_of reg g) (app_message_of_dict d g) s = (s2, None) \<and>
     runs (trace s2) =
       runs (trace s) @ map (\<lambda>j. (j, app_message_of_dict d g)) [0 ..< length (handlers_of reg g)] \<and>
     handler_errors (trace s2) =
       handler_errors (trace s) @
       raised 0 (handlers_of reg g) (app_message_of_dict d g) (handlers_state s) \<and>
     app_receive_frames reg (Json (frame_of g (JObj d)) # fs) fin s = app_receive_frames reg fs fin s2"
proof -
  let ?hs = "handlers_of reg g"
  let ?m2 = "app_message_of_dict d g"
  obtain s1 r1 where d1: "dispatch_from 0 ?hs m s = (s1, r1)" by (cases "dispatch_from 0 ?hs m s")
  obtain s2 r2 where d2: "dispatch_from 0 ?hs ?m2 s = (s2, r2)" by (cases "dispatch_from 0 ?hs ?m2 s")
  have wb1: "\<forall>h \<in> set ?hs. \<forall>st e. fst (h m st) = Some e \<longrightarrow> is_Exception e" using wb by blast
  have wb2: "\<forall>h \<in> set ?hs. \<forall>st e. fst (h ?m2 st) = Some e \<longrightarrow> is_Exception e" using wb by blast
  note f1 = dispatch_from_runs_all[OF wb1 d1]
  note f2 = dispatch_from_runs_all[OF wb2 d2]
  have r1: "r1 = None" and r2: "r2 = None" using f1 f2 by simp_all
  have a: "dispatch_message ?hs m s = (s1, None)" using d1 r1 by (simp add: dispatch_message_def)
  have b: "app_dispatch_message ?hs ?m2 s = (s2, None)"
    using d2 r2 by (simp add: app_dispatch_message_def catch_Exception_def)
  have c: "receive_frames reg (Json (frame_of g (JObj d)) # fs) fin s = receive_frames reg fs fin s1"
    using a mi by (simp add: handle_frame_of)
  have e: "app_receive_frames reg (Json (frame_of g (JObj d)) # fs) fin s = app_receive_frames reg fs fin s2"
    using b by (simp add: app_handle_frame_of catch_Exception_def)
  show ?thesis using a b c e f1 f2 by simp
qed

lemma msg1_init: "message_of_dict [(''id'', JInt 1)] False = Inr msg1"
  by (simp add: message_of_dict_def then_exc_def dict_get_def catch_value_type_def msg1_def RECALL_def)

lemma reg2_wb: "\<forall>h \<in> set (handlers_of reg2 False). \<forall>m st e. fst (h m st) = Some e \<longrightarrow> is_Exception e"
  by (simp add: handlers_of_def reg2_def h_fail_def h_count_def)

theorem handler_failures_isolated_witness:
  "\<exists>s1. dispatch_message [h_fail, h_count] msg1 (idle 0) = (s1, None) \<and>
     runs (trace s1) = [(0, msg1), (1, msg1)] \<and>
     handler_errors (trace s1) = [(0, ValueError)] \<and>
     receive_frames reg2 [Json (frame_of False (JObj [(''id'', JInt 1)])), NotJson ''x''] None (idle 0)
       = (s1, Some JSONDecodeError)"
  using handler_failures_isolated[OF reg2_wb msg1_init, of "idle 0" "[NotJson ''x'']" None]
  by (auto simp add: handlers_of_def reg2_def idle_def h_fail_def h_count_def)

subsection \<open>What dispatch and the receive loop leave unchanged\<close>

lemma dispatch_from_keeps:
  "dispatch_from i hs m s = (s', r) \<Longrightarrow>
   ws_running s' = ws_running s \<and> ws_connected_flag s' = ws_connected_flag s \<and>
   ws_reconnect_count s' = ws_reconnect_count s \<and>
   sleeps (trace s') = sleeps (trace s) \<and> relogins (trace s') = relogins (trace s) \<and>
   connects (trace s') = connects (trace s)"
proof (induction hs arbitrary: i s)
  case Nil
  then show ?case by simp
next
  case (Cons h hs)
  obtain o1 st where h: "h m (handlers_state s) = (o1, st)" by (cases "h m (handlers_state s)")
  show ?case
  proof (cases o1)
    case None
    with h Cons.prems have "dispatch_from (Suc i) hs m (emit (HandlerRun i m) (s\<lparr>handlers_state := st\<rparr>)) = (s', r)"
      by simp
    from Cons.IH[OF this] show ?thesis
      by (simp add: emit_def sleeps_append relogins_append connects_append)
  next
    case (Some e)
    show ?thesis
    proof (cases "is_Exception e")
      case True
      with Some h Cons.prems have "dispatch_from (Suc i) hs m
        (emit (HandlerErrorLogged i e) (emit (HandlerRun i m) (s\<lparr>handlers_state := st\<rparr>))) = (s', r)"
        by simp
      from Cons.IH[OF this] show ?thesis
        by (simp add: emit_def sleeps_append relogins_append connects_append)
    next
      case False
      with Some h Cons.prems show ?thesis
        by (auto simp add: emit_def sleeps_append relogins_append connects_append)
    qed
  qed
qed

lemma handle_ws_message_keeps:
  assumes "handle_ws_message reg d s = (s', r)"
  shows "(ws_running s' \<longrightarrow> ws_running s) \<and>
   ws_reconnect_count s' = ws_reconnect_count s \<and>
   sleeps (trace s') = sleeps (trace s) \<and> relogins (trace s') = relogins (trace s) \<and>
   connects (trace s') = connects (trace s)"
proof (cases d)
  case (JObj kvs)
  then show ?thesis using assms
    by (auto simp add: Let_def dispatch_message_def emit_def sleeps_append relogins_append
          connects_append split: sum.splits if_splits dest: dispatch_from_keeps)
qed (use assms in auto)

lemma receive_frames_keeps:
  "receive_frames reg fs fin s = (s', r) \<Longrightarrow>
   (ws_running s' \<longrightarrow> ws_running s) \<and>
   ws_reconnect_count s' = ws_reconnect_count s \<and>
   sleeps (trace s') = sleeps (trace s) \<and> relogins (trace s') = relogins (trace s) \<and>
   connects (trace s') = connects (trace s)"
proof (induction fs arbitrary: s)
  case Nil
  then show ?case by simp
next
  case (Cons f fs)
  show ?case
  proof (cases f)
    case (NotJson t)
    with Cons.prems show ?thesis by simp
  next
    case (Json d)
    obtain s1 r1 where h: "handle_ws_message reg d s = (s1, r1)"
      by (cases "handle_ws_message reg d s")
    note k = handle_ws_message_keeps[OF h]
    show ?thesis
    proof (cases r1)
      case None
      with h Json Cons.prems have "receive_frames reg fs fin s1 = (s', r)" by simp
      from Cons.IH[OF this] k show ?thesis by simp
    next
      case (Some e)
      with h Json Cons.prems have "s' = s1" by simp
      with k show ?thesis by simp
    qed
  qed
qed

lemma ws_receive_keeps:
  "ws_receive reg fs fin s = (s', r) \<Longrightarrow>
   (ws_running s' \<longrightarrow> ws_running s) \<and>
   ws_reconnect_count s' = ws_reconnect_count s \<and>
   sleeps (trace s') = sleeps (trace s) \<and> relogins (trace s') = relogins (trace s) \<and>
   connects (trace s') = connects (trace s)"
proof -
  assume a: "ws_receive reg fs fin s = (s', r)"
  obtain s1 r1 where h: "receive_frames reg fs fin s = (s1, r1)"
    by (cases "receive_frames reg fs fin s")
  note k = receive_frames_keeps[OF h]
  from a h k show ?thesis
    by (auto simp add: ws_receive_def emit_def sleeps_append relogins_append connects_append
        split: option.splits pyexc.splits)
qed

subsection \<open>Runs of the reconnect loop in which every connection attempt fails\<close>

lemma ws_connect_fails:
  "fails_to_open c \<Longrightarrow>
   \<exists>e. is_Exception e \<and> ws_connect reg c s = (emit (Connecting (ws_reconnect_count s + 1)) s, Some e)"
  by (auto simp add: fails_to_open_def ws_connect_def Let_def split: option.splits)

lemma upt_shift2: "[i + 1 ..< i + 1 + length (c # cs)] = Suc i # [Suc i + 1 ..< Suc i + 1 + length cs]"
  by (simp add: upt_conv_Cons del: upt_Suc)

lemma nat_int_Suc: "nat (int n + 1) = Suc n" "nat (1 + int n) = Suc n"
  by simp_all

lemma failing_run:
  assumes "ws_running s" "\<not> ws_connected_flag s"
      and "\<forall>c \<in> set cs. fails_to_open c \<and> relogin_outcome c = ReloginFailed"
      and "0 \<le> cf" "cf \<le> MAX_RECONNECT_ATTEMPTS cfg - 1"
  shows "\<exists>s'. ws_loop cfg reg cs cf s =
            (s', min (cf + int (length cs)) (MAX_RECONNECT_ATTEMPTS cfg - 1), Unfinished) \<and>
     ws_running s' \<and> \<not> ws_connected_flag s' \<and>
     ws_reconnect_count s' = ws_reconnect_count s + length cs \<and>
     sleeps (trace s') = sleeps (trace s) @
        map (backoff_delay cfg) [ws_reconnect_count s + 1 ..< ws_reconnect_count s + 1 + length cs] \<and>
     relogins (trace s') =
        relogins (trace s) + nat (cf + int (length cs) - (MAX_RECONNECT_ATTEMPTS cfg - 1)) \<and>
     connects (trace s') = connects (trace s) + length cs"
  using assms
proof (induction cs arbitrary: cf s)
  case Nil
  then show ?case by simp
next
  case (Cons c cs)
  let ?M = "MAX_RECONNECT_ATTEMPTS cfg"
  let ?s0 = "emit (Connecting (ws_reconnect_count s + 1)) s"
  from Cons.prems(3) have fo: "fails_to_open c" and rl: "relogin_outcome c = ReloginFailed"
    and rest: "\<forall>c \<in> set cs. fails_to_open c \<and> relogin_outcome c = ReloginFailed" by simp_all
  from ws_connect_fails[OF fo] obtain e where e: "is_Exception e"
    and wc: "ws_connect reg c s = (?s0, Some e)" by blast
  let ?s1 = "emit (WsExceptionLogged e) ?s0"
  have run1: "ws_running ?s1" "\<not> ws_connected_flag ?s1" using Cons.prems(1,2) by (simp_all add: emit_def)
  show ?case
  proof (cases "cf + 1 \<ge> ?M")
    case True
    then have cfM: "cf = ?M - 1" using Cons.prems(5) by simp
    define s2 where "s2 = sleep_step cfg (emit Relogin ?s1)"
    have bo: "backoff cfg (relogin_outcome c) (cf + 1) ?s1 = (s2, ?M - 1, None)"
      using run1 True rl by (simp add: backoff_def relogin_step_def s2_def)
    have step: "ws_loop cfg reg (c # cs) cf s = ws_loop cfg reg cs (?M - 1) s2"
      using Cons.prems(1) wc e bo by simp
    have p: "ws_running s2" "\<not> ws_connected_flag s2" "0 \<le> ?M - 1" "?M - 1 \<le> ?M - 1"
      using run1 cfM Cons.prems(4) by (simp_all add: s2_def sleep_step_def emit_def Let_def)
    from Cons.IH[OF p(1) p(2) rest p(3) p(4)] obtain s' where
      r: "ws_loop cfg reg cs (?M - 1) s2 = (s', min (?M - 1 + int (length cs)) (?M - 1), Unfinished)"
      and q: "ws_running s'" "\<not> ws_connected_flag s'"
        "ws_reconnect_count s' = ws_reconnect_count s2 + length cs"
        "sleeps (trace s') = sleeps (trace s2) @
           map (backoff_delay cfg) [ws_reconnect_count s2 + 1 ..< ws_reconnect_count s2 + 1 + length cs]"
        "relogins (trace s') = relogins (trace s2) + nat (?M - 1 + int (length cs) - (?M - 1))"
        "connects (trace s') = connects (trace s2) + length cs"
      by blast
    have c2: "ws_reconnect_count s2 = Suc (ws_reconnect_count s)"
      by (simp add: s2_def sleep_step_def emit_def Let_def)
    have t2: "sleeps (trace s2) = sleeps (trace s) @ [backoff_delay cfg (Suc (ws_reconnect_count s))]"
      "relogins (trace s2) = Suc (relogins (trace s))"
      "connects (trace s2) = Suc (connects (trace s))"
      by (simp_all add: s2_def sleep_step_def emit_def Let_def sleeps_append relogins_append
            connects_append backoff_delay_def)
    have a1: "min (cf + int (length (c # cs))) (?M - 1) = min (?M - 1 + int (length cs)) (?M - 1)"
      using cfM by simp
    have a2: "nat (cf + int (length (c # cs)) - (?M - 1)) = Suc (nat (?M - 1 + int (length cs) - (?M - 1)))"
      using cfM by simp
    show ?thesis
      unfolding step upt_shift2 a1 a2 using r q by (simp add: c2 t2 del: upt_Suc)
  next
    case False
    define s2 where "s2 = sleep_step cfg ?s1"
    have bo: "backoff cfg (relogin_outcome c) (cf + 1) ?s1 = (s2, cf + 1, None)"
      using run1 False by (simp add: backoff_def relogin_step_def s2_def)
    have step: "ws_loop cfg reg (c # cs) cf s = ws_loop cfg reg cs (cf + 1) s2"
      using Cons.prems(1) wc e bo by simp
    have p: "ws_running s2" "\<not> ws_connected_flag s2" "0 \<le> cf + 1" "cf + 1 \<le> ?M - 1"
      using run1 False Cons.prems(4) by (simp_all add: s2_def sleep_step_def emit_def Let_def)
    from Cons.IH[OF p(1) p(2) rest p(3) p(4)] obtain s' where
      r: "ws_loop cfg reg cs (cf + 1) s2 = (s', min (cf + 1 + int (length cs)) (?M - 1), Unfinished)"
      and q: "ws_running s'" "\<not> ws_connected_flag s'"
        "ws_reconnect_count s' = ws_reconnect_count s2 + length cs"
        "sleeps (trace s') = sleeps (trace s2) @
           map (backoff_delay cfg) [ws_reconnect_count s2 + 1 ..< ws_reconnect_count s2 + 1 + length cs]"
        "relogins (trace s') = relogins (trace s2) + nat (cf + 1 + int (length cs) - (?M - 1))"
        "connects (trace s') = connects (trace s2) + length cs"
      by blast
    have c2: "ws_reconnect_count s2 = Suc (ws_reconnect_count s)"
      by (simp add: s2_def sleep_step_def emit_def Let_def)
    have t2: "sleeps (trace s2) = sleeps (trace s) @ [backoff_delay cfg (Suc (ws_reconnect_count s))]"
      "relogins (trace s2) = relogins (trace s)"
      "connects (trace s2) = Suc (connects (trace s))"
      by (simp_all add: s2_def sleep_step_def emit_def Let_def sleeps_append relogins_append
            connects_append backoff_delay_def)
    have a1: "min (cf + int (length (c # cs))) (?M - 1) = min (cf + 1 + int (length cs)) (?M - 1)"
      by simp
    have a2: "nat (cf + int (length (c # cs)) - (?M - 1)) = nat (cf + 1 + int (length cs) - (?M - 1))"
      by simp
    show ?thesis
      unfolding step upt_shift2 a1 a2 using r q by (simp add: c2 t2 del: upt_Suc)
  qed
qed

subsection \<open>Backoff and re-login\<close>

lemma ws_connect_active:
  assumes "open_connection c = None" "auth_send c = None"
  shows "\<exists>s1. ws_reconnect_count s1 = 0 \<and> ws_connected_flag s1 \<and>
           ws_running s1 = ws_running s \<and>
           connects (trace s1) = Suc (connects (trace s)) \<and>
           sleeps (trace s1) = sleeps (trace s) \<and> relogins (trace s1) = relogins (trace s) \<and>
           ws_connect reg c s =
             (case ws_receive reg (frames c) (stream_end c) s1 of
                (s2, r) \<Rightarrow> (s2\<lparr>ws_connected_flag := False\<rparr>, r))"
  using assms
  by (intro exI[of _ "(emit (Connecting (ws_reconnect_count s + 1)) s)
          \<lparr>ws_reconnect_count := 0, ws_connected_flag := True\<rparr>"])
     (simp add: ws_connect_def Let_def emit_def connects_append sleeps_append relogins_append)

lemma ws_connect_count_reset:
  assumes "open_connection c = None"
  shows "ws_reconnect_count (fst (ws_connect reg c s)) = 0"
proof (cases "auth_send c")
  case None
  from ws_connect_active[OF assms None, where s=s and reg=reg] obtain s1 where
    c0: "ws_reconnect_count s1 = 0" and
    eq: "ws_connect reg c s = (case ws_receive reg (frames c) (stream_end c) s1 of
                (s2, r) \<Rightarrow> (s2\<lparr>ws_connected_flag := False\<rparr>, r))" by blast
  obtain s2 r where r: "ws_receive reg (frames c) (stream_end c) s1 = (s2, r)"
    by (cases "ws_receive reg (frames c) (stream_end c) s1")
  from ws_receive_keeps[OF r] c0 eq r show ?thesis by simp
next
  case (Some e)
  with assms show ?thesis by (simp add: ws_connect_def Let_def emit_def)
qed



lemma ended_turn:
  assumes run: "ws_running s" and en: "ends_normally reg c" and m: "0 < MAX_RECONNECT_ATTEMPTS cfg"
  shows "\<exists>s1. ws_loop cfg reg (c # cs) cf s = ws_loop cfg reg cs 0 s1 \<and>
           ws_running s1 \<and> \<not> ws_connected_flag s1 \<and> ws_reconnect_count s1 = 1 \<and>
           sleeps (trace s1) = sleeps (trace s) @ [backoff_delay cfg 1] \<and>
           relogins (trace s1) = relogins (trace s) \<and>
           connects (trace s1) = Suc (connects (trace s))"
proof -
  from en have op: "open_connection c = None" and au: "auth_send c = None"
    and rc: "\<And>st. snd (ws_receive reg (frames c) (stream_end c) st) = None"
            "\<And>st. ws_running (fst (ws_receive reg (frames c) (stream_end c) st)) = ws_running st"
    by (simp_all add: ends_normally_def)
  from ws_connect_active[OF op au, where s=s and reg=reg] obtain a where
    a: "ws_reconnect_count a = 0" "ws_connected_flag a" "ws_running a = ws_running s"
       "connects (trace a) = Suc (connects (trace s))"
       "sleeps (trace a) = sleeps (trace s)" "relogins (trace a) = relogins (trace s)"
    and wc: "ws_connect reg c s =
             (case ws_receive reg (frames c) (stream_end c) a of
                (s2, r) \<Rightarrow> (s2\<lparr>ws_connected_flag := False\<rparr>, r))" by blast
  obtain b r where q: "ws_receive reg (frames c) (stream_end c) a = (b, r)"
    by (cases "ws_receive reg (frames c) (stream_end c) a")
  have r: "r = None" using rc(1)[of a] q by simp
  have rb: "ws_running b" using rc(2)[of a] q a(3) run by simp
  note k = ws_receive_keeps[OF q]
  define s2 where "s2 = b\<lparr>ws_connected_flag := False, ws_reconnect_count := 0\<rparr>"
  have k2: "ws_running s2" "\<not> ws_connected_flag s2" "ws_reconnect_count s2 = 0"
    "sleeps (trace s2) = sleeps (trace s)" "relogins (trace s2) = relogins (trace s)"
    "connects (trace s2) = Suc (connects (trace s))"
    using k a rb by (simp_all add: s2_def)
  define s1 where "s1 = sleep_step cfg s2"
  have bo: "backoff cfg (relogin_outcome c) 0 s2 = (s1, 0, None)"
    using k2(1,2) m by (simp add: backoff_def relogin_step_def s1_def)
  have step: "ws_loop cfg reg (c # cs) cf s = ws_loop cfg reg cs 0 s1"
    using run wc q r bo k2(1,2) by (simp add: s2_def)
  have k1: "ws_running s1" "\<not> ws_connected_flag s1" "ws_reconnect_count s1 = 1"
    "sleeps (trace s1) = sleeps (trace s) @ [backoff_delay cfg 1]"
    "relogins (trace s1) = relogins (trace s)"
    "connects (trace s1) = Suc (connects (trace s))"
    using k2 by (simp_all add: s1_def sleep_step_def emit_def Let_def sleeps_append
          relogins_append connects_append backoff_delay_def)
  from step k1 show ?thesis by blast
qed

lemma ended_then_failing:
  assumes run: "ws_running s" and en: "ends_normally reg c" and m: "0 < MAX_RECONNECT_ATTEMPTS cfg"
      and f: "\<forall>c \<in> set cs. fails_to_open c \<and> relogin_outcome c = ReloginFailed"
  shows "\<exists>s'. ws_loop cfg reg (c # cs) cf s =
            (s', min (int (length cs)) (MAX_RECONNECT_ATTEMPTS cfg - 1), Unfinished) \<and>
     ws_running s' \<and> \<not> ws_connected_flag s' \<and>
     ws_reconnect_count s' = 1 + length cs \<and>
     sleeps (trace s') = sleeps (trace s) @ map (backoff_delay cfg) [1 ..< 2 + length cs] \<and>
     relogins (trace s') = relogins (trace s) + (length cs - nat (MAX_RECONNECT_ATTEMPTS cfg - 1)) \<and>
     connects (trace s') = connects (trace s) + 1 + length cs"
proof -
  from ended_turn[OF run en m, of cs cf] obtain s1 where
    st: "ws_loop cfg reg (c # cs) cf s = ws_loop cfg reg cs 0 s1"
    and k1: "ws_running s1" "\<not> ws_connected_flag s1" "ws_reconnect_count s1 = 1"
    "sleeps (trace s1) = sleeps (trace s) @ [backoff_delay cfg 1]"
    "relogins (trace s1) = relogins (trace s)"
    "connects (trace s1) = Suc (connects (trace s))"
    by blast
  have b: "(0::int) \<le> 0" "0 \<le> MAX_RECONNECT_ATTEMPTS cfg - 1" using m by simp_all
  from failing_run[OF k1(1) k1(2) f b, where reg=reg] obtain s' where
    l: "ws_loop cfg reg cs 0 s1 =
       (s', min (0 + int (length cs)) (MAX_RECONNECT_ATTEMPTS cfg - 1), Unfinished)"
    and r: "ws_running s'" "\<not> ws_connected_flag s'"
    and c: "ws_reconnect_count s' = ws_reconnect_count s1 + length cs"
    and sl: "sleeps (trace s') = sleeps (trace s1) @
        map (backoff_delay cfg) [ws_reconnect_count s1 + 1 ..< ws_reconnect_count s1 + 1 + length cs]"
    and rl: "relogins (trace s') =
        relogins (trace s1) + nat (0 + int (length cs) - (MAX_RECONNECT_ATTEMPTS cfg - 1))"
    and cn: "connects (trace s') = connects (trace s1) + length cs"
    by blast
  have n: "nat (0 + int (length cs) - (MAX_RECONNECT_ATTEMPTS cfg - 1)) =
           length cs - nat (MAX_RECONNECT_ATTEMPTS cfg - 1)"
    using m by arith
  have u: "[(1::nat) ..< 2 + length cs] = 1 # [1 + 1 ..< 1 + 1 + length cs]"
    by (simp add: upt_conv_Cons numeral_2_eq_2 del: upt_Suc)
  have sl2: "sleeps (trace s') = sleeps (trace s) @ map (backoff_delay cfg) [1 ..< 2 + length cs]"
    unfolding sl k1(3) k1(4) u by simp
  from st l r c sl2 rl cn n k1 show ?thesis by simp
qed


lemma backoff_after_failures:
  assumes "ws_running s" "\<not> ws_connected_flag s"
      and "\<forall>c \<in> set cs. fails_to_open c \<and> relogin_outcome c = ReloginFailed"
      and "0 < MAX_RECONNECT_ATTEMPTS cfg"
  shows "sleeps (trace (fst (ws_loop cfg reg cs 0 s))) =
           sleeps (trace s) @
           map (\<lambda>n. min (RECONNECT_DELAY cfg * 2 ^ n) (MAX_RECONNECT_DELAY cfg))
             [ws_reconnect_count s + 1 ..< ws_reconnect_count s + 1 + length cs]"
proof -
  have b: "(0::int) \<le> 0" "0 \<le> MAX_RECONNECT_ATTEMPTS cfg - 1" using assms(4) by simp_all
  from failing_run[OF assms(1-3) b, where reg=reg] show ?thesis
    by (auto simp add: backoff_delay_def[abs_def])
qed

lemma backoff_after_connection:
  assumes "ws_running s" "ends_normally reg c" "0 < MAX_RECONNECT_ATTEMPTS cfg"
      and "\<forall>c \<in> set cs. fails_to_open c \<and> relogin_outcome c = ReloginFailed"
  shows "sleeps (trace (fst (ws_loop cfg reg (c # cs) cf s))) =
           sleeps (trace s) @
           map (\<lambda>n. min (RECONNECT_DELAY cfg * 2 ^ n) (MAX_RECONNECT_DELAY cfg))
             [1 ..< 2 + length cs]"
  using ended_then_failing[OF assms, of cf]
  by (auto simp add: backoff_delay_def[abs_def])




text \<open>
  C6. The claim: the delay slept before reconnect attempt \<open>n\<close> is \<open>min (base * 2 ^ n) cap\<close>.
  \<^verbatim>\<open>_ws_connect\<close> sets the connected flag as soon as the socket is open, before the
  authentication frame is sent and outside the \<^verbatim>\<open>try ... finally\<close> that clears it. In a
  turn where sending that frame times out the flag stays set; the backoff block of the
  loop runs only while the flag is clear, so this attempt and the two that follow, which
  cannot open the socket, are each followed by the next attempt without any sleep, and
  the flag is still set at the end.
\<close>

theorem auth_failure_skips_backoff:
  "trace (fst (ws_loop default_config reg2 [auth_failing, failing_cycle, failing_cycle] 0 (started 0))) =
     [Connecting 1, WsExceptionLogged TimeoutError, Connecting 1, WsExceptionLogged TimeoutError,
      Connecting 1, WsExceptionLogged TimeoutError] \<and>
   sleeps (trace (fst (ws_loop default_config reg2 [auth_failing, failing_cycle, failing_cycle] 0 (started 0)))) = [] \<and>
   ws_connected_flag (fst (ws_loop default_config reg2 [auth_failing, failing_cycle, failing_cycle] 0 (started 0)))"
  by (simp add: default_config_def failing_cycle_def auth_failing_def started_def ws_connect_def
        open_connection_def backoff_def relogin_step_def sleep_step_def emit_def Let_def)

lemma ended_connection_backs_off:
  "trace (fst (ws_loop default_config reg2 [session [], failing_cycle, failing_cycle] 0 (started 0))) =
     [Connecting 1, Sleep 6, Connecting 2, WsExceptionLogged TimeoutError, Sleep 12,
      Connecting 3, WsExceptionLogged TimeoutError, Sleep 24]"
  by (simp add: default_config_def failing_cycle_def session_def started_def ws_connect_def
        ws_receive_def open_connection_def backoff_def relogin_step_def sleep_step_def emit_def Let_def)


subsection \<open>Malformed frames\<close>

lemma app_malformed_frame_dropped:
  "app_receive_frames reg (NotJson t # fs) fin s =
     app_receive_frames reg fs fin (emit (DecodeErrorLogged t) s)"
  by simp

text \<open>
  C3. The claim: a frame that is not JSON is logged and dropped, and the connection stays
  active. In bot\_core.py \<^verbatim>\<open>json.loads\<close> is called outside any \<^verbatim>\<open>try\<close>: on the frames
  \<^verbatim>\<open>hello\<close>, \<^verbatim>\<open>{"cmd": 5}\<close> the decode error leaves \<^verbatim>\<open>_ws_receive\<close> and \<^verbatim>\<open>_ws_connect\<close>
  with the connected flag cleared, the second frame is never handled, and the reconnect
  loop counts a failure and sleeps before reconnecting. The receive loop of app.py logs
  the error and handles the second frame.
\<close>

theorem malformed_frame_ends_connection:
  "ws_connect reg2 (session [NotJson ''hello'', Json (JObj [(''cmd'', JInt 5)])]) (started 0) =
     ((started 0)\<lparr>trace := [Connecting 1]\<rparr>, Some JSONDecodeError) \<and>
   ws_loop default_config reg2 [session [NotJson ''hello'', Json (JObj [(''cmd'', JInt 5)])]] 0 (started 0) =
     ((started 0)\<lparr>ws_reconnect_count := 1,
         trace := [Connecting 1, WsExceptionLogged JSONDecodeError, Sleep 6]\<rparr>, 1, Unfinished) \<and>
   app_ws_receive reg2 [NotJson ''hello'', Json (JObj [(''cmd'', JInt 5)])] None (idle 0) =
     ((idle 0)\<lparr>trace := [DecodeErrorLogged ''hello'', SystemMessageLogged (JObj [])]\<rparr>, None)"
  by (simp add: ws_connect_def session_def started_def idle_def open_connection_def ws_receive_def
        emit_def Let_def default_config_def backoff_def relogin_step_def sleep_step_def
        app_ws_receive_def catch_Exception_def dict_get_def
        PRIVATE_MESSAGE_def GROUP_MESSAGE_def SYSTEM_MESSAGE_def)

subsection \<open>Forced offline\<close>

lemma receive_frames_append:
  "receive_frames reg pre None s = (s1, None) \<Longrightarrow>
   receive_frames reg (pre @ fs) fin s = receive_frames reg fs fin s1"
proof (induction pre arbitrary: s)
  case Nil
  then show ?case by simp
next
  case (Cons f pre)
  show ?case
  proof (cases f)
    case (NotJson t)
    with Cons.prems show ?thesis by simp
  next
    case (Json d)
    obtain s2 r2 where h: "handle_ws_message reg d s = (s2, r2)"
      by (cases "handle_ws_message reg d s")
    with Json Cons.prems have r2: "r2 = None" by (cases r2) simp_all
    with h Json Cons.prems have "receive_frames reg pre None s2 = (s1, None)" by simp
    from Cons.IH[OF this] h r2 Json show ?thesis by simp
  qed
qed

lemma py_eq_int_unique: "py_eq_int v a \<Longrightarrow> a \<noteq> b \<Longrightarrow> \<not> py_eq_int v b"
  by (cases "(v, a)" rule: py_eq_int.cases) auto

lemma handle_force_offline:
  assumes "py_eq_int (dict_get d ''cmd'') FORCE_OFFLINE"
  shows "handle_ws_message reg (JObj d) s =
     ((emit ForceOfflineLogged s)\<lparr>ws_running := False, ws_connected_flag := False\<rparr>, None)"
proof -
  have "\<not> py_eq_int (dict_get d ''cmd'') PRIVATE_MESSAGE" "\<not> py_eq_int (dict_get d ''cmd'') GROUP_MESSAGE"
    "\<not> py_eq_int (dict_get d ''cmd'') SYSTEM_MESSAGE" "\<not> py_eq_int (dict_get d ''cmd'') HEARTBEAT"
    using py_eq_int_unique[OF assms]
    by (simp_all add: FORCE_OFFLINE_def PRIVATE_MESSAGE_def GROUP_MESSAGE_def SYSTEM_MESSAGE_def HEARTBEAT_def)
  with assms show ?thesis by (simp add: Let_def)
qed

lemma ws_loop_stopped:
  "\<not> ws_running s \<Longrightarrow> ws_loop cfg reg cs cf s = (emit LoopExit s, cf, Exited)"
  by (cases cs) simp_all

lemma backoff_stopped: "\<not> ws_running s \<Longrightarrow> backoff cfg rl cf s = (s, cf, None)"
  by (simp add: backoff_def)

text \<open>
  C2. A connection is open and authenticated, the frames before the one with command 2 are
  handled without an exception, and then the frame with command 2 arrives. Whatever
  follows on the connection and whatever the network would do in later turns, the run of
  the reconnect loop ends: the loop condition fails and the loop exits, or a cancellation
  leaves it. In the final state the run flag and the connected flag are false, and since
  the loop was entered there has been the one connection attempt of this turn, no sleep
  and no re-login.
\<close>

theorem force_offline_stops_supervisor:
  assumes run: "ws_running s"
      and op: "open_connection c = None" and au: "auth_send c = None"
      and fr: "frames c = pre @ Json (JObj d) # post"
      and pre: "\<forall>st. snd (receive_frames reg pre None st) = None"
      and cmd: "py_eq_int (dict_get d ''cmd'') FORCE_OFFLINE"
  shows "\<exists>s' cf' e. ws_loop cfg reg (c # cs) cf s = (s', cf', e) \<and>
           (e = Exited \<or> (\<exists>x. e = Propagated x \<and> \<not> is_Exception x)) \<and>
           \<not> ws_running s' \<and> \<not> ws_connected_flag s' \<and>
           connects (trace s') = connects (trace s) + 1 \<and>
           sleeps (trace s') = sleeps (trace s) \<and>
           relogins (trace s') = relogins (trace s)"
proof -
  from ws_connect_active[OF op au, where s=s and reg=reg] obtain s1 where
    a: "ws_reconnect_count s1 = 0" "ws_connected_flag s1" "ws_running s1 = ws_running s"
       "connects (trace s1) = Suc (connects (trace s))"
       "sleeps (trace s1) = sleeps (trace s)" "relogins (trace s1) = relogins (trace s)"
    and wc: "ws_connect reg c s =
             (case ws_receive reg (frames c) (stream_end c) s1 of
                (s2, r) \<Rightarrow> (s2\<lparr>ws_connected_flag := False\<rparr>, r))" by blast
  obtain s2 r2 where p: "receive_frames reg pre None s1 = (s2, r2)"
    by (cases "receive_frames reg pre None s1")
  with pre have r2: "r2 = None" by (metis snd_conv)
  note k2 = receive_frames_keeps[OF p]
  define s3 where "s3 = (emit ForceOfflineLogged s2)\<lparr>ws_running := False, ws_connected_flag := False\<rparr>"
  have s3: "\<not> ws_running s3" "connects (trace s3) = connects (trace s2)"
    "sleeps (trace s3) = sleeps (trace s2)" "relogins (trace s3) = relogins (trace s2)"
    by (simp_all add: s3_def emit_def connects_append sleeps_append relogins_append)
  have "receive_frames reg (frames c) (stream_end c) s1 =
        receive_frames reg (Json (JObj d) # post) (stream_end c) s2"
    unfolding fr using receive_frames_append p r2 by blast
  also have "\<dots> = receive_frames reg post (stream_end c) s3"
    unfolding receive_frames.simps handle_force_offline[OF cmd] s3_def by simp
  finally have rf: "receive_frames reg (frames c) (stream_end c) s1 =
        receive_frames reg post (stream_end c) s3" .
  obtain s4 r4 where q: "ws_receive reg (frames c) (stream_end c) s1 = (s4, r4)"
    by (cases "ws_receive reg (frames c) (stream_end c) s1")
  obtain s5 r5 where q5: "receive_frames reg post (stream_end c) s3 = (s5, r5)"
    by (cases "receive_frames reg post (stream_end c) s3")
  note k5 = receive_frames_keeps[OF q5]
  have k4: "\<not> ws_running s4" "connects (trace s4) = connects (trace s) + 1"
    "sleeps (trace s4) = sleeps (trace s)" "relogins (trace s4) = relogins (trace s)"
    using q rf q5 k5 s3 k2 a
    by (auto simp add: ws_receive_def emit_def connects_append sleeps_append relogins_append
          split: option.splits pyexc.splits)
  define s6 where "s6 = s4\<lparr>ws_connected_flag := False\<rparr>"
  have wc6: "ws_connect reg c s = (s6, r4)" using wc q by (simp add: s6_def)
  have k6: "\<not> ws_running s6" "\<not> ws_connected_flag s6" "connects (trace s6) = connects (trace s) + 1"
    "sleeps (trace s6) = sleeps (trace s)" "relogins (trace s6) = relogins (trace s)"
    using k4 by (simp_all add: s6_def)
  show ?thesis
  proof (cases r4)
    case None
    define s7 where "s7 = s6\<lparr>ws_reconnect_count := 0\<rparr>"
    have k7: "\<not> ws_running s7" "\<not> ws_connected_flag s7" "connects (trace s7) = connects (trace s) + 1"
      "sleeps (trace s7) = sleeps (trace s)" "relogins (trace s7) = relogins (trace s)"
      using k6 by (simp_all add: s7_def)
    have "ws_loop cfg reg (c # cs) cf s = (emit LoopExit s7, 0, Exited)"
      using run wc6 None k6(1,2) k7(1,2) backoff_stopped[OF k7(1)] ws_loop_stopped[OF k7(1)]
      by (simp add: s7_def[symmetric])
    then show ?thesis using k7
      by (simp add: emit_def connects_append sleeps_append relogins_append)
  next
    case (Some x)
    show ?thesis
    proof (cases "is_Exception x")
      case True
      define s7 where "s7 = emit (WsExceptionLogged x) s6"
      have k7: "\<not> ws_running s7" "\<not> ws_connected_flag s7" "connects (trace s7) = connects (trace s) + 1"
        "sleeps (trace s7) = sleeps (trace s)" "relogins (trace s7) = relogins (trace s)"
        using k6 by (simp_all add: s7_def emit_def connects_append sleeps_append relogins_append)
      have "ws_loop cfg reg (c # cs) cf s = (emit LoopExit s7, cf + 1, Exited)"
        using run wc6 Some True backoff_stopped[OF k7(1)] ws_loop_stopped[OF k7(1)]
        by (simp add: s7_def[symmetric])
      then show ?thesis using k7
        by (simp add: emit_def connects_append sleeps_append relogins_append)
    next
      case False
      have "ws_loop cfg reg (c # cs) cf s = (s6, cf, Propagated x)"
        using run wc6 Some False by simp
      then show ?thesis using k6 False by simp
    qed
  qed
qed

theorem force_offline_stops_supervisor_witness:
  "\<exists>s' cf' e. ws_loop default_config reg2 (kicked # replicate 3 failing_cycle) 0 (started 0) = (s', cf', e) \<and>
           (e = Exited \<or> (\<exists>x. e = Propagated x \<and> \<not> is_Exception x)) \<and>
           \<not> ws_running s' \<and> \<not> ws_connected_flag s' \<and>
           connects (trace s') = 1 \<and> sleeps (trace s') = [] \<and> relogins (trace s') = 0"
proof -
  have h: "ws_running (started (0::nat))" "open_connection kicked = None" "auth_send kicked = None"
    "frames kicked = [Json (JObj [(''cmd'', JInt 1)])] @ Json (JObj [(''cmd'', JInt 2)]) #
        [Json (frame_of False (JObj [(''id'', JInt 1)]))]"
    "\<forall>st. snd (receive_frames reg2 [Json (JObj [(''cmd'', JInt 1)])] None st) = None"
    "py_eq_int (dict_get [(''cmd'', JInt 2)] ''cmd'') FORCE_OFFLINE"
    by (simp_all add: started_def kicked_def session_def open_connection_def dict_get_def
          FORCE_OFFLINE_def PRIVATE_MESSAGE_def GROUP_MESSAGE_def SYSTEM_MESSAGE_def HEARTBEAT_def)
  from force_offline_stops_supervisor[OF h, where cfg=default_config and cs="replicate 3 failing_cycle" and cf=0]
  show ?thesis by (simp add: started_def)
qed

subsection \<open>Login and refresh\<close>

lemma login_rejected_not_logged_in:
  "resp = HttpStatus n \<or> resp = ApiCode k \<or> resp = PostRaises e \<Longrightarrow>
   \<not> is_logged_in (snd (login decode now resp si1 si2 u p s)) t"
  by (auto simp add: login_def Let_def is_logged_in_def)

text \<open>
  C4. The claim: when the token carries no subject claim and the self-info call fails,
  \<^verbatim>\<open>login\<close> has asked self-info exactly once, returns failure, and \<^verbatim>\<open>is_logged_in\<close> is
  false. The endpoint answers with a token whose payload is \<^verbatim>\<open>{}\<close> and a lifetime of 3600
  seconds, and the self-info call raises: \<^verbatim>\<open>login\<close> returns \<^verbatim>\<open>False\<close>, after two self-info
  calls, and the token it stored makes \<^verbatim>\<open>is_logged_in\<close> true. The same holds with one
  self-info call when that call returns no data.
\<close>

theorem failed_login_leaves_session_valid:
  "fst (login decode_empty_object 1000 (LoginOk ''h.e30.s'' ''r'' 3600 7200)
          (SelfInfoRaises (OtherException ''api'')) (SelfInfoRaises (OtherException ''api''))
          ''ENLT'' ''114514'' new_session) = Inr False \<and>
   is_logged_in (snd (login decode_empty_object 1000 (LoginOk ''h.e30.s'' ''r'' 3600 7200)
          (SelfInfoRaises (OtherException ''api'')) (SelfInfoRaises (OtherException ''api''))
          ''ENLT'' ''114514'' new_session)) 1000 \<and>
   net_calls (snd (login decode_empty_object 1000 (LoginOk ''h.e30.s'' ''r'' 3600 7200)
          (SelfInfoRaises (OtherException ''api'')) (SelfInfoRaises (OtherException ''api''))
          ''ENLT'' ''114514'' new_session)) = [LoginPost, SelfInfoGet, SelfInfoGet] \<and>
   fst (login decode_empty_object 1000 (LoginOk ''h.e30.s'' ''r'' 3600 7200)
          (SelfInfoData JNull) (SelfInfoData JNull) ''ENLT'' ''114514'' new_session) = Inr False \<and>
   is_logged_in (snd (login decode_empty_object 1000 (LoginOk ''h.e30.s'' ''r'' 3600 7200)
          (SelfInfoData JNull) (SelfInfoData JNull) ''ENLT'' ''114514'' new_session)) 1000 \<and>
   net_calls (snd (login decode_empty_object 1000 (LoginOk ''h.e30.s'' ''r'' 3600 7200)
          (SelfInfoData JNull) (SelfInfoData JNull) ''ENLT'' ''114514'' new_session))
     = [LoginPost, SelfInfoGet]"
  by (simp add: login_def Let_def finish_login_def resolve_user_id_def try_token_def
        ask_self_info_def id_of_self_info_def decode_empty_object_def dict_get_def
        new_session_def is_logged_in_def)

text \<open>
  C5, as amended. While a refresh is in flight, another call of
  \<^verbatim>\<open>refresh_token_if_needed\<close> returns at once, makes no request and changes nothing, and
  what it returns is \<^verbatim>\<open>False\<close>.
\<close>

theorem refresh_in_flight_returns_false:
  "is_refreshing_token s \<Longrightarrow>
   refresh_token_if_needed decode now rresp lresp si1 si2 s = (Inr False, s)"
  by (simp add: refresh_token_if_needed_def)

theorem refresh_in_flight_returns_false_witness:
  "refresh_token_if_needed decode_empty_object 1000 (RefreshOk ''t'' None 3600 None)
     (HttpStatus 500) (SelfInfoData JNull) (SelfInfoData JNull)
     (new_session\<lparr>is_refreshing_token := True\<rparr>) = (Inr False, new_session\<lparr>is_refreshing_token := True\<rparr>)"
  using refresh_in_flight_returns_false[of "new_session\<lparr>is_refreshing_token := True\<rparr>"]
  by simp

text \<open>The second caller does not get the answer "still valid".\<close>

theorem refresh_in_flight_counterexample:
  "fst (refresh_token_if_needed decode_empty_object 1000 (RefreshOk ''t'' None 3600 None)
     (HttpStatus 500) (SelfInfoData JNull) (SelfInfoData JNull)
     (new_session\<lparr>is_refreshing_token := True\<rparr>)) \<noteq> Inr True"
  by (simp add: refresh_token_if_needed_def)

lemma refresh_cooldown_returns_true:
  "\<not> is_refreshing_token s \<Longrightarrow> now - last_token_refresh_time s < token_refresh_cooldown s \<Longrightarrow>
   refresh_token_if_needed decode now rresp lresp si1 si2 s = (Inr True, s)"
  by (simp add: refresh_token_if_needed_def)

subsection \<open>The rate guard\<close>

lemma fill_defaults_complete: "complete (fill_defaults r)"
  by (simp add: complete_def fill_defaults_def or_default_def split: option.splits)


lemma default_user_complete: "complete default_user"
  by (simp add: complete_def default_user_def)

lemma get_user_data_keeps:
  "user_message_times (get_user_data u s) = user_message_times s"
  "spam_warnings (get_user_data u s) = spam_warnings s"
  "temp_blacklist (get_user_data u s) = temp_blacklist s"
  "sent (get_user_data u s) = sent s"
  by (simp_all add: get_user_data_def split: option.splits)

lemma get_user_data_complete:
  "\<exists>r. user_data (get_user_data u s) u = Some r \<and> complete r"
  by (simp add: get_user_data_def fill_defaults_complete default_user_complete split: option.splits)

lemma get_user_data_other:
  "v \<noteq> u \<Longrightarrow> user_data (get_user_data u s) v = user_data s v"
  by (simp add: get_user_data_def split: option.splits)


lemma gain_keeps:
  "user_message_times (gain u now s) = user_message_times s"
  "spam_warnings (gain u now s) = spam_warnings s"
  "temp_blacklist (gain u now s) = temp_blacklist s"
  by (simp_all add: gain_def Let_def split: option.splits)

lemma gain_other: "v \<noteq> u \<Longrightarrow> user_data (gain u now s) v = user_data s v"
  by (simp add: gain_def Let_def split: option.splits)


lemma add_experience_unblocked:
  assumes "temp_blacklist s u = None"
  shows "add_experience u now a s =
     (let s0 = get_user_data u s;
          ts = filter (\<lambda>t. t > now - 5)
                 ((case user_message_times s u of None \<Rightarrow> [] | Some l \<Rightarrow> l) @ [now]);
          s2 = s0\<lparr>user_message_times := (user_message_times s0)(u \<mapsto> ts)\<rparr>
      in if length ts \<ge> 5 then handle_spam u a s2 else (Gained, gain u now s2))"
  using assms by (simp add: add_experience_def get_user_data_keeps Let_def)

lemma add_experience_expired:
  assumes "temp_blacklist s u = Some until" "\<not> now < until"
  shows "add_experience u now a s =
     (let s0 = get_user_data u s;
          s1 = s0\<lparr>temp_blacklist := (temp_blacklist s0)(u := None),
                   spam_warnings := (spam_warnings s0)(u := None)\<rparr>;
          ts = filter (\<lambda>t. t > now - 5)
                 ((case user_message_times s u of None \<Rightarrow> [] | Some l \<Rightarrow> l) @ [now]);
          s2 = s1\<lparr>user_message_times := (user_message_times s1)(u \<mapsto> ts)\<rparr>
      in if length ts \<ge> 5 then handle_spam u a s2 else (Gained, gain u now s2))"
  using assms by (simp add: add_experience_def get_user_data_keeps Let_def)

lemma add_experience_blocked:
  assumes "temp_blacklist s u = Some until" "now < until"
  shows "add_experience u now a s = (Ignored, get_user_data u s)"
  using assms by (simp add: add_experience_def get_user_data_keeps Let_def)

lemma handle_spam_first:
  assumes "spam_warnings s u = None"
  shows "handle_spam u a s =
     (FirstOffense,
      s\<lparr>spam_warnings := (spam_warnings s)(u \<mapsto> 1),
        temp_blacklist := (temp_blacklist s)(u \<mapsto> a + 60),
        sent := sent s @ [BlockWarning u]\<rparr>)"
  using assms by (simp add: handle_spam_def)

lemma guard_invI:
  "(\<And>v. spam_warnings s v \<noteq> None \<Longrightarrow> spam_warnings s v = Some 1 \<and> temp_blacklist s v \<noteq> None) \<Longrightarrow>
   (\<And>v. temp_blacklist s v \<noteq> None \<Longrightarrow> \<exists>r. user_data s v = Some r \<and> complete r) \<Longrightarrow>
   guard_inv s"
  by (simp add: guard_inv_def)

lemma guard_inv_new: "guard_inv (new_guard stored)"
  by (simp add: guard_inv_def new_guard_def)

lemma guard_inv_gain_step:
  assumes inv: "guard_inv s"
      and w: "spam_warnings s2 = (spam_warnings s)(u := None)"
      and b: "temp_blacklist s2 = (temp_blacklist s)(u := None)"
      and d: "\<forall>v. v \<noteq> u \<longrightarrow> user_data s2 v = user_data s v"
  shows "guard_inv (gain u now s2)"
proof (rule guard_invI)
  fix v
  assume "spam_warnings (gain u now s2) v \<noteq> None"
  then have "v \<noteq> u \<and> spam_warnings s v \<noteq> None" using w by (auto simp add: gain_keeps split: if_splits)
  then show "spam_warnings (gain u now s2) v = Some 1 \<and> temp_blacklist (gain u now s2) v \<noteq> None"
    using inv w b by (auto simp add: gain_keeps guard_inv_def)
next
  fix v
  assume "temp_blacklist (gain u now s2) v \<noteq> None"
  then have vu: "v \<noteq> u" and "temp_blacklist s v \<noteq> None" using b by (auto simp add: gain_keeps split: if_splits)
  then obtain r where "user_data s v = Some r" "complete r" using inv by (auto simp add: guard_inv_def)
  then show "\<exists>r. user_data (gain u now s2) v = Some r \<and> complete r"
    using vu d by (simp add: gain_other)
qed

lemma guard_inv_first_offense:
  assumes inv: "guard_inv s"
      and w: "spam_warnings s2 = (spam_warnings s)(u := None)"
      and b: "temp_blacklist s2 = (temp_blacklist s)(u := None)"
      and d: "\<forall>v. v \<noteq> u \<longrightarrow> user_data s2 v = user_data s v"
      and c: "\<exists>r. user_data s2 u = Some r \<and> complete r"
  shows "\<exists>s'. handle_spam u a s2 = (FirstOffense, s') \<and> guard_inv s'"
proof -
  have n: "spam_warnings s2 u = None" using w by simp
  let ?s' = "s2\<lparr>spam_warnings := (spam_warnings s2)(u \<mapsto> 1),
        temp_blacklist := (temp_blacklist s2)(u \<mapsto> a + 60),
        sent := sent s2 @ [BlockWarning u]\<rparr>"
  have "guard_inv ?s'"
  proof (rule guard_invI)
    fix v
    assume "spam_warnings ?s' v \<noteq> None"
    then show "spam_warnings ?s' v = Some 1 \<and> temp_blacklist ?s' v \<noteq> None"
      using inv w b by (cases "v = u") (auto simp add: guard_inv_def)
  next
    fix v
    assume t: "temp_blacklist ?s' v \<noteq> None"
    show "\<exists>r. user_data ?s' v = Some r \<and> complete r"
    proof (cases "v = u")
      case True
      then show ?thesis using c by simp
    next
      case False
      with t b have "temp_blacklist s v \<noteq> None" by simp
      then show ?thesis using inv d False by (auto simp add: guard_inv_def)
    qed
  qed
  then show ?thesis using handle_spam_first[OF n] by simp
qed

lemma guard_inv_add_experience:
  assumes inv: "guard_inv s" and step: "add_experience u now a s = (out, s')"
  shows "guard_inv s' \<and> out \<noteq> DestructiveReset"
proof -
  let ?s0 = "get_user_data u s"
  have inv0: "guard_inv ?s0"
  proof (rule guard_invI)
    fix v
    assume "spam_warnings ?s0 v \<noteq> None"
    then show "spam_warnings ?s0 v = Some 1 \<and> temp_blacklist ?s0 v \<noteq> None"
      using inv by (simp add: get_user_data_keeps guard_inv_def)
  next
    fix v
    assume "temp_blacklist ?s0 v \<noteq> None"
    then have "\<exists>r. user_data s v = Some r \<and> complete r"
      using inv by (simp add: get_user_data_keeps guard_inv_def)
    then show "\<exists>r. user_data ?s0 v = Some r \<and> complete r"
      using get_user_data_complete[of u s] get_user_data_other[of v u s] by (cases "v = u") auto
  qed
  show ?thesis
  proof (cases "temp_blacklist s u")
    case None
    then have wn: "spam_warnings s u = None" using inv by (auto simp add: guard_inv_def)
    let ?ts = "filter (\<lambda>t. t > now - 5)
                 ((case user_message_times s u of None \<Rightarrow> [] | Some l \<Rightarrow> l) @ [now])"
    let ?s2 = "?s0\<lparr>user_message_times := (user_message_times ?s0)(u \<mapsto> ?ts)\<rparr>"
    have e: "add_experience u now a s =
       (if length ?ts \<ge> 5 then handle_spam u a ?s2 else (Gained, gain u now ?s2))"
      using add_experience_unblocked[OF None] by (simp add: Let_def)
    have w: "spam_warnings ?s2 = (spam_warnings ?s0)(u := None)"
      using wn by (auto simp add: get_user_data_keeps)
    have b: "temp_blacklist ?s2 = (temp_blacklist ?s0)(u := None)"
      using None by (auto simp add: get_user_data_keeps)
    have d: "\<forall>v. v \<noteq> u \<longrightarrow> user_data ?s2 v = user_data ?s0 v" by simp
    have c: "\<exists>r. user_data ?s2 u = Some r \<and> complete r"
      using get_user_data_complete[of u s] by simp
    show ?thesis
    proof (cases "length ?ts \<ge> 5")
      case True
      from guard_inv_first_offense[OF inv0 w b d c, of a] e True step show ?thesis by auto
    next
      case False
      from guard_inv_gain_step[OF inv0 w b d, of now] e False step show ?thesis by auto
    qed
  next
    case (Some until)
    show ?thesis
    proof (cases "now < until")
      case True
      from add_experience_blocked[OF Some True] step inv0 show ?thesis by auto
    next
      case False
      let ?s1 = "?s0\<lparr>temp_blacklist := (temp_blacklist ?s0)(u := None),
                   spam_warnings := (spam_warnings ?s0)(u := None)\<rparr>"
      let ?ts = "filter (\<lambda>t. t > now - 5)
                 ((case user_message_times s u of None \<Rightarrow> [] | Some l \<Rightarrow> l) @ [now])"
      let ?s2 = "?s1\<lparr>user_message_times := (user_message_times ?s1)(u \<mapsto> ?ts)\<rparr>"
      have e: "add_experience u now a s =
         (if length ?ts \<ge> 5 then handle_spam u a ?s2 else (Gained, gain u now ?s2))"
        using add_experience_expired[OF Some False] by (simp add: Let_def)
      have w: "spam_warnings ?s2 = (spam_warnings ?s0)(u := None)" by simp
      have b: "temp_blacklist ?s2 = (temp_blacklist ?s0)(u := None)" by simp
      have d: "\<forall>v. v \<noteq> u \<longrightarrow> user_data ?s2 v = user_data ?s0 v" by simp
      have c: "\<exists>r. user_data ?s2 u = Some r \<and> complete r"
        using get_user_data_complete[of u s] by simp
      show ?thesis
      proof (cases "length ?ts \<ge> 5")
        case True
        from guard_inv_first_offense[OF inv0 w b d c, of a] e True step show ?thesis by auto
      next
        case False
        from guard_inv_gain_step[OF inv0 w b d, of now] e False step show ?thesis by auto
      qed
    qed
  qed
qed

lemma guard_inv_run:
  "guard_inv s \<Longrightarrow> run_guard ms s = (outs, s') \<Longrightarrow> guard_inv s' \<and> DestructiveReset \<notin> set outs"
proof (induction ms arbitrary: s outs s')
  case Nil
  then show ?case by simp
next
  case (Cons m ms)
  obtain u now a where m: "m = (u, now, a)" by (cases m)
  obtain out s1 where st: "add_experience u now a s = (out, s1)" by (cases "add_experience u now a s")
  obtain outs1 s2 where r: "run_guard ms s1 = (outs1, s2)" by (cases "run_guard ms s1")
  from guard_inv_add_experience[OF Cons.prems(1) st] have i1: "guard_inv s1" and o: "out \<noteq> DestructiveReset"
    by simp_all
  from Cons.IH[OF i1 r] Cons.prems(2) m st r o show ?case by auto
qed

text \<open>
  C10. Starting from a guard without counters, blocks or history, and whatever records
  are stored, no sequence of inbound messages takes the destructive-reset branch: every
  detected offense is a first offense. After any such sequence the warning counter of a
  sender is absent or 1.
\<close>

theorem destructive_reset_unreachable:
  "DestructiveReset \<notin> set (fst (run_guard ms (new_guard stored))) \<and>
   (spam_warnings (snd (run_guard ms (new_guard stored))) u = None \<or>
    spam_warnings (snd (run_guard ms (new_guard stored))) u = Some 1)"
proof -
  obtain outs s' where r: "run_guard ms (new_guard stored) = (outs, s')"
    by (cases "run_guard ms (new_guard stored)")
  from guard_inv_run[OF guard_inv_new r] have "guard_inv s'" "DestructiveReset \<notin> set outs"
    by simp_all
  then show ?thesis using r by (auto simp add: guard_inv_def)
qed
















end
